theory Spec2Isabelle
  imports Complex_Main "HOL-Library.Word"
begin

unbundle bit_operations_syntax

section \<open>Python values used by the modules\<close>

type_synonym byte = "8 word"

text \<open>
  Exceptions are values. \<open>ValueError\<close> carries its message, so that the
  \<^verbatim>\<open>ValueError('No choice made.')\<close> of \<^verbatim>\<open>distribution.py\<close> is told apart from the bare
  \<^verbatim>\<open>raise ValueError\<close> of \<^verbatim>\<open>effecttypes.py\<close>.
\<close>

datatype error =
    ValueError string
  | OverflowError
  | IndexError
  | ZeroWeightException
  | AllocationError
  | EncodingRangeError
  | UnknownLabel string

text \<open>
  A Python \<^verbatim>\<open>float\<close> as far as comparisons see it: a real number, one of the two
  infinities, or NaN. No arithmetic is done on these values by the code modelled with them
  (\<^verbatim>\<open>TechOptions.__init__\<close> only compares), so no rounding is involved.
\<close>

datatype pyfloat = NaN | NegInf | Fin real | PosInf






section \<open>arguments/techoptions.py\<close>

datatype TechOrder = VANILLA | RANDOM | MP_ORDER | MP_TYPE_ORDER

datatype TechDamage = TD_VANILLA | TD_SHUFFLE | TD_RANDOM



section \<open>Python numbers\<close>

text \<open>
  A weight is an \<^verbatim>\<open>int\<close> or a \<^verbatim>\<open>float\<close>. Integers are exact and unbounded. A float is a
  \<open>pyfloat\<close>; the two zeros are one value, which no comparison and no operation below
  tells apart.
\<close>

datatype pynum = PyInt int | PyFloat pyfloat


text \<open>Float addition: NaN and the infinities follow IEEE 754, finite operands are rounded.\<close>

fun fl_add :: "(real \<Rightarrow> pyfloat) \<Rightarrow> pyfloat \<Rightarrow> pyfloat \<Rightarrow> pyfloat" where
  "fl_add r NaN y = NaN"
| "fl_add r x NaN = NaN"
| "fl_add r PosInf NegInf = NaN"
| "fl_add r NegInf PosInf = NaN"
| "fl_add r PosInf y = PosInf"
| "fl_add r x PosInf = PosInf"
| "fl_add r NegInf y = NegInf"
| "fl_add r x NegInf = NegInf"
| "fl_add r (Fin a) (Fin b) = r (a + b)"



text \<open>
  Converting a number to a float for mixed arithmetic: an \<^verbatim>\<open>int\<close> is rounded, and
  \<^verbatim>\<open>OverflowError\<close> is raised when it is too large for a float.
\<close>

definition to_float :: "(real \<Rightarrow> pyfloat) \<Rightarrow> pynum \<Rightarrow> error + pyfloat" where
  "to_float r n =
     (case n of
        PyFloat f \<Rightarrow> Inr f
      | PyInt i \<Rightarrow> (case r (of_int i) of Fin x \<Rightarrow> Inr (Fin x) | _ \<Rightarrow> Inl OverflowError))"

text \<open>\<^verbatim>\<open>a + b\<close> and \<^verbatim>\<open>a * b\<close>: exact on two integers, float arithmetic otherwise.\<close>

definition num_add :: "(real \<Rightarrow> pyfloat) \<Rightarrow> pynum \<Rightarrow> pynum \<Rightarrow> error + pynum" where
  "num_add r a b =
     (case (a, b) of
        (PyInt i, PyInt j) \<Rightarrow> Inr (PyInt (i + j))
      | _ \<Rightarrow> (case to_float r a of
                Inl e \<Rightarrow> Inl e
              | Inr fa \<Rightarrow> (case to_float r b of
                            Inl e \<Rightarrow> Inl e
                          | Inr fb \<Rightarrow> Inr (PyFloat (fl_add r fa fb)))))"






section \<open>common/distribution.py\<close>










text \<open>
  The cumulative weight after the pair at index \<open>i\<close>, added up as the loop does: from
  the integer 0, one weight after the other.
\<close>

fun add_weights :: "(real \<Rightarrow> pyfloat) \<Rightarrow> pynum \<Rightarrow> pynum list \<Rightarrow> error + pynum" where
  "add_weights r cum_weight [] = Inr cum_weight"
| "add_weights r cum_weight (weight # rest) =
     (case num_add r cum_weight weight of
        Inl e \<Rightarrow> Inl e
      | Inr cum_weight1 \<Rightarrow> add_weights r cum_weight1 rest)"






section \<open>Bytes\<close>

text \<open>\<^verbatim>\<open>bytes([...])\<close> raises \<^verbatim>\<open>ValueError\<close> unless every element is in \<open>range(256)\<close>.\<close>

definition py_bytes :: "int list \<Rightarrow> error + byte list" where
  "py_bytes xs =
     (if list_all (\<lambda>x. 0 \<le> x \<and> x < 256) xs then Inr (map word_of_int xs)
      else Inl (ValueError ''bytes must be in range(0, 256)''))"

text \<open>The \<open>n\<close> low bytes of a natural number, least significant first.\<close>

fun le_bytes :: "nat \<Rightarrow> nat \<Rightarrow> byte list" where
  "le_bytes v 0 = []"
| "le_bytes v (Suc n) = of_nat (v mod 256) # le_bytes (v div 256) n"

text \<open>\<^verbatim>\<open>int.to_bytes(v, n, "little")\<close>: \<^verbatim>\<open>OverflowError\<close> when \<open>v\<close> is negative or too big.\<close>

definition int_to_bytes :: "int \<Rightarrow> nat \<Rightarrow> error + byte list" where
  "int_to_bytes v n =
     (if 0 \<le> v \<and> v < 256 ^ n then Inr (le_bytes (nat v) n) else Inl OverflowError)"

text \<open>\<^verbatim>\<open>int.from_bytes(bs, "little")\<close>.\<close>

fun from_le_bytes :: "byte list \<Rightarrow> nat" where
  "from_le_bytes [] = 0"
| "from_le_bytes (b # bs) = unat b + 256 * from_le_bytes bs"

text \<open>Evaluating a list of fallible expressions from left to right; the first error wins.\<close>

fun sequence_results :: "(error + 'a) list \<Rightarrow> error + 'a list" where
  "sequence_results [] = Inr []"
| "sequence_results (r # rs) =
     (case r of Inl e \<Rightarrow> Inl e
      | Inr x \<Rightarrow> (case sequence_results rs of Inl e \<Rightarrow> Inl e | Inr xs \<Rightarrow> Inr (x # xs)))"

section \<open>asm/instructions.py: the instruction vocabulary used by effecttypes.py\<close>

text \<open>
  The addressing modes and mnemonics that \<^verbatim>\<open>effecttypes.py\<close> names. \<open>REL_8\<close> is the mode of
  a short branch, which the source never writes out (\<^verbatim>\<open>inst.BEQ("end")\<close>). \<open>AND_A\<close> is the
  mnemonic \<^verbatim>\<open>AND\<close>, whose name is taken by the bit operation.
\<close>

datatype AddressingMode =
  ABS | ABS_X | ABS_X_16 | DIR | IMM8 | IMM16 | LNG | LNG_X | NO_ARG | REL_8

datatype mnemonic =
    LDA | LDX | STA | STX | CMP | BIT | AND_A | SBC | DEC | ASL | TSB
  | BEQ | BNE | BCS | JMP | JSR | JSL | RTS
  | TAX | TDC | SEC | REP | SEP

text \<open>What a constructor call passes: a number, a label name, or nothing.\<close>

datatype argument = Num int | Lab string | NoArgument

text \<open>
  An element of an \<^verbatim>\<open>ASMList\<close>: an instruction (mnemonic, argument, and the \<^verbatim>\<open>mode\<close>
  argument when the call gives one), or a string, which marks a label.
\<close>

datatype asm_item =
    Instruction mnemonic argument "AddressingMode option"
  | LabelMark string

text \<open>The five shapes of constructor call in the source.\<close>

abbreviation inst :: "mnemonic \<Rightarrow> int \<Rightarrow> AddressingMode \<Rightarrow> asm_item" where
  "inst m v am \<equiv> Instruction m (Num v) (Some am)"   \<comment> \<open>\<^verbatim>\<open>inst.STA(0x20, AM.DIR)\<close>\<close>

abbreviation inst_mode :: "mnemonic \<Rightarrow> AddressingMode \<Rightarrow> asm_item" where
  "inst_mode m am \<equiv> Instruction m NoArgument (Some am)"   \<comment> \<open>\<^verbatim>\<open>inst.ASL(mode=AM.NO_ARG)\<close>\<close>

abbreviation inst_bare :: "mnemonic \<Rightarrow> asm_item" where
  "inst_bare m \<equiv> Instruction m NoArgument None"   \<comment> \<open>\<^verbatim>\<open>inst.TAX()\<close>\<close>

abbreviation inst_label :: "mnemonic \<Rightarrow> string \<Rightarrow> asm_item" where
  "inst_label m l \<equiv> Instruction m (Lab l) None"   \<comment> \<open>\<^verbatim>\<open>inst.BCS("new_bank")\<close>\<close>

abbreviation inst_value :: "mnemonic \<Rightarrow> int \<Rightarrow> asm_item" where
  "inst_value m v \<equiv> Instruction m (Num v) None"   \<comment> \<open>\<^verbatim>\<open>inst.REP(0x20)\<close>\<close>

section \<open>The cartridge image and the modules outside effecttypes.py\<close>

text \<open>
  \<^verbatim>\<open>byteops\<close>, the space manager of \<^verbatim>\<open>ctrom\<close> and the opcode table of the assembler are
  not part of the sources at hand; they are parameters of the model:
  \<^item> \<open>to_rom_ptr\<close>, \<open>to_file_ptr\<close>: \<^verbatim>\<open>byteops.to_rom_ptr\<close>, \<^verbatim>\<open>byteops.to_file_ptr\<close>;
  \<^item> \<open>get_free_addr\<close>: \<^verbatim>\<open>space_manager.get_free_addr(size, hint)\<close> on a space-manager
    state \<open>'sm\<close>, returning the address and the next state, or an error; the hint is
    \<open>None\<close> where the caller passes none;
  \<^item> \<open>mark_used\<close>: what a write tagged \<^verbatim>\<open>FSWriteType.MARK_USED\<close> does to the space manager,
    given the start and the length of the write;
  \<^item> \<open>opcode\<close>: the opcode byte of a mnemonic in an addressing mode.
\<close>

record 'sm externals =
  to_rom_ptr :: "nat \<Rightarrow> nat"
  to_file_ptr :: "nat \<Rightarrow> nat"
  get_free_addr :: "'sm \<Rightarrow> nat \<Rightarrow> nat option \<Rightarrow> error + nat \<times> 'sm"
  mark_used :: "'sm \<Rightarrow> nat \<Rightarrow> nat \<Rightarrow> 'sm"
  opcode :: "mnemonic \<Rightarrow> AddressingMode \<Rightarrow> byte"

text \<open>
  Modelled from the spec: \<^verbatim>\<open>ctrom.CTRom\<close> is not part of the sources at hand. The
  specification's image is a mutable byte buffer with seek and write at absolute offsets,
  where a write may be tagged to mark the touched region used. The model keeps a byte at
  every offset, the stream position, and the state of the space manager; a write stores
  its bytes from the stream position on and advances the position.
\<close>

record 'sm CTRom =
  rom_data :: "nat \<Rightarrow> byte"
  rom_pos :: nat
  space_manager :: 'sm

datatype FSWriteType = NO_MARK | MARK_USED

definition CTRom_seek :: "nat \<Rightarrow> 'sm CTRom \<Rightarrow> 'sm CTRom" where
  "CTRom_seek addr ct_rom = ct_rom \<lparr> rom_pos := addr \<rparr>"

fun write_bytes :: "(nat \<Rightarrow> byte) \<Rightarrow> nat \<Rightarrow> byte list \<Rightarrow> (nat \<Rightarrow> byte)" where
  "write_bytes mem p [] = mem"
| "write_bytes mem p (b # bs) = write_bytes (mem (p := b)) (Suc p) bs"

definition CTRom_write ::
  "'sm externals \<Rightarrow> byte list \<Rightarrow> FSWriteType \<Rightarrow> 'sm CTRom \<Rightarrow> 'sm CTRom" where
  "CTRom_write ext bs write_type ct_rom =
     ct_rom \<lparr> rom_data := write_bytes (rom_data ct_rom) (rom_pos ct_rom) bs,
              rom_pos := rom_pos ct_rom + length bs,
              space_manager :=
                (if write_type = MARK_USED
                 then mark_used ext (space_manager ct_rom) (rom_pos ct_rom) (length bs)
                 else space_manager ct_rom) \<rparr>"

text \<open>The bytes of the image at offsets \<open>start, ..., start + n - 1\<close>.\<close>

definition read_at :: "'sm CTRom \<Rightarrow> nat \<Rightarrow> nat \<Rightarrow> byte list" where
  "read_at ct_rom start n = map (rom_data ct_rom) [start ..< start + n]"

section \<open>asm/assemble.py\<close>

text \<open>
  Modelled from the spec: \<^verbatim>\<open>assemble.assemble\<close> is not part of the sources at hand. The
  specification describes a two-pass assembler: every addressing mode has a fixed encoded
  length (one opcode byte and zero to three operand bytes); the first pass accumulates
  offsets and records each label's offset the first time it is reached; the second pass
  emits the bytes, a short branch to a label becoming the signed 8-bit distance from the
  end of the branch, with a range error when it does not fit, and an operand that exceeds
  the range of its mode being an encoding-range error. The mode of a call that names none
  is the short-branch mode for a label argument, the 8-bit immediate for a number, and no
  operand otherwise.
\<close>

definition mode_of :: "argument \<Rightarrow> AddressingMode option \<Rightarrow> AddressingMode" where
  "mode_of arg md =
     (case md of Some am \<Rightarrow> am
      | None \<Rightarrow> (case arg of Lab l \<Rightarrow> REL_8 | Num v \<Rightarrow> IMM8 | NoArgument \<Rightarrow> NO_ARG))"

fun operand_len :: "AddressingMode \<Rightarrow> nat" where
  "operand_len NO_ARG = 0"
| "operand_len IMM8 = 1"
| "operand_len DIR = 1"
| "operand_len REL_8 = 1"
| "operand_len IMM16 = 2"
| "operand_len ABS = 2"
| "operand_len ABS_X = 2"
| "operand_len ABS_X_16 = 2"
| "operand_len LNG = 3"
| "operand_len LNG_X = 3"

fun item_len :: "asm_item \<Rightarrow> nat" where
  "item_len (LabelMark l) = 0"
| "item_len (Instruction m arg md) = 1 + operand_len (mode_of arg md)"

text \<open>Pass 1: the labels with their offsets, in the order reached.\<close>

fun label_offsets :: "asm_item list \<Rightarrow> nat \<Rightarrow> (string \<times> nat) list" where
  "label_offsets [] off = []"
| "label_offsets (LabelMark l # rest) off = (l, off) # label_offsets rest off"
| "label_offsets (Instruction m arg md # rest) off =
     label_offsets rest (off + item_len (Instruction m arg md))"

text \<open>The operand bytes of the instruction at offset \<open>off\<close>.\<close>

definition encode_operand ::
  "(string \<times> nat) list \<Rightarrow> nat \<Rightarrow> AddressingMode \<Rightarrow> argument \<Rightarrow> error + byte list" where
  "encode_operand labels off am arg =
     (case arg of
        NoArgument \<Rightarrow> (if operand_len am = 0 then Inr [] else Inl EncodingRangeError)
      | Num v \<Rightarrow>
          (if 0 \<le> v \<and> v < 256 ^ operand_len am then Inr (le_bytes (nat v) (operand_len am))
           else Inl EncodingRangeError)
      | Lab l \<Rightarrow>
          (case map_of labels l of
             None \<Rightarrow> Inl (UnknownLabel l)
           | Some target \<Rightarrow>
               (if am = REL_8 then
                  (let dist = int target - int (off + 2)
                   in if - 128 \<le> dist \<and> dist \<le> 127 then Inr [word_of_int dist]
                      else Inl EncodingRangeError)
                else if target < 256 ^ operand_len am
                  then Inr (le_bytes target (operand_len am))
                else Inl EncodingRangeError)))"

text \<open>Pass 2.\<close>

fun emit ::
  "'sm externals \<Rightarrow> (string \<times> nat) list \<Rightarrow> asm_item list \<Rightarrow> nat \<Rightarrow> error + byte list" where
  "emit ext labels [] off = Inr []"
| "emit ext labels (LabelMark l # rest) off = emit ext labels rest off"
| "emit ext labels (Instruction m arg md # rest) off =
     (let am = mode_of arg md
      in case encode_operand labels off am arg of
           Inl e \<Rightarrow> Inl e
         | Inr operand \<Rightarrow>
             (case emit ext labels rest (off + 1 + operand_len am) of
                Inl e \<Rightarrow> Inl e
              | Inr bs \<Rightarrow> Inr (opcode ext m am # operand @ bs)))"

definition assemble :: "'sm externals \<Rightarrow> asm_item list \<Rightarrow> error + byte list" where
  "assemble ext routine = emit ext (label_offsets routine 0) routine 0"

section \<open>common/cttypes.py and common/asmpatcher.py\<close>

text \<open>
  Modelled from the spec: \<^verbatim>\<open>cttypes.AbsPointerRW\<close> and \<^verbatim>\<open>SizedBinaryData.read_from_ctrom\<close>
  are not part of the sources at hand. The specification's record codec dereferences the
  meta-pointer for the table base, then reads \<open>size\<close> bytes at \<open>base + index * size\<close>. The
  meta-pointer of \<^verbatim>\<open>EffectMod\<close> is the three-byte pointer at \<open>0x01EB3E\<close> (the operand of
  \<^verbatim>\<open>LDA $CC2A05,X\<close>), a ROM address that \<open>to_file_ptr\<close> turns into an image offset.
\<close>

definition EffectMod_SIZE :: nat where
  "EffectMod_SIZE = 3"

definition EffectMod_ROM_RW :: nat where
  "EffectMod_ROM_RW = 0x01EB3E"

definition get_data_start_from_ctrom :: "'sm externals \<Rightarrow> 'sm CTRom \<Rightarrow> nat" where
  "get_data_start_from_ctrom ext ct_rom =
     to_file_ptr ext (from_le_bytes (read_at ct_rom EffectMod_ROM_RW 3))"

definition read_from_ctrom :: "'sm externals \<Rightarrow> 'sm CTRom \<Rightarrow> nat \<Rightarrow> byte list" where
  "read_from_ctrom ext ct_rom ind =
     read_at ct_rom (get_data_start_from_ctrom ext ct_rom + ind * EffectMod_SIZE) EffectMod_SIZE"

text \<open>
  Modelled from the spec: \<^verbatim>\<open>asmpatcher.apply_jmp_patch\<close> is not part of the sources at hand.
  The specification's patch applier (1) assembles the routine, (2) asks the allocator for a
  placement, (3) writes the assembled bytes there, marking them used, and (4) overwrites
  exactly 4 bytes at the hook address with a long jump to the placement.
\<close>

definition apply_jmp_patch ::
  "'sm externals \<Rightarrow> asm_item list \<Rightarrow> nat \<Rightarrow> 'sm CTRom \<Rightarrow> nat option \<Rightarrow> error + 'sm CTRom" where
  "apply_jmp_patch ext patch hook_addr ct_rom hint =
     (case assemble ext patch of
        Inl e \<Rightarrow> Inl e
      | Inr patch_b \<Rightarrow>
          (case get_free_addr ext (space_manager ct_rom) (length patch_b) hint of
             Inl e \<Rightarrow> Inl e
           | Inr (addr, sm) \<Rightarrow>
               (let rom1 = CTRom_write ext patch_b MARK_USED
                             (CTRom_seek addr (ct_rom \<lparr> space_manager := sm \<rparr>))
                in case assemble ext [inst JMP (int (to_rom_ptr ext addr)) LNG] of
                     Inl e \<Rightarrow> Inl e
                   | Inr hook_b \<Rightarrow> Inr (CTRom_write ext hook_b NO_MARK (CTRom_seek hook_addr rom1)))))"

section \<open>effects/effecttypes.py\<close>

definition vanilla_effect_start :: nat where
  "vanilla_effect_start = 0x0C2A05"

definition vanilla_effect_count :: nat where
  "vanilla_effect_count = 0x39"

definition max_vanilla_routine_index :: int where
  "max_vanilla_routine_index = 0x42"

definition current_damage_offset :: int where
  "current_damage_offset = 0xAD89"

definition current_attack_status_offset :: int where
  "current_attack_status_offset = 0xAE9B"

definition current_attacker_offset :: int where
  "current_attacker_offset = 0xB1F4"

definition crown_offset :: int where
  "crown_offset = 0x5E51"

definition crown_bit :: int where
  "crown_bit = 0x80"

text \<open>An \<^verbatim>\<open>EffectMod\<close> is its bytes.\<close>

definition get_spellslinger_effect :: "int \<Rightarrow> int \<Rightarrow> error + byte list" where
  "get_spellslinger_effect effect_id damage_divisor =
     (if \<not> (1 \<le> damage_divisor \<and> damage_divisor < 0xFF) then Inl (ValueError [])
      else py_bytes [effect_id, 0, damage_divisor])"

definition gather_vanilla_effects :: "'sm externals \<Rightarrow> 'sm CTRom \<Rightarrow> byte list list" where
  "gather_vanilla_effects ext ct_rom =
     map (read_from_ctrom ext ct_rom) [0 ..< vanilla_effect_count]"

definition get_venus_bow_rt :: "asm_item list" where
  "get_venus_bow_rt =
     [ inst LDX 777 IMM16,
       inst STX current_damage_offset ABS,
       inst_bare RTS ]"

definition get_spellslinger_rt :: "asm_item list" where
  "get_spellslinger_rt =
     (let slow_mult_rom_addr = 0xC1FDBF;
          slow_div_rom_addr = 0xC1FDD3;
          mp_offset = 0x5E36
      in [ inst_bare TDC,
           inst LDX current_attacker_offset ABS,
           inst_value REP 0x20,
           inst LDA mp_offset ABS_X,
           inst STA 0x28 DIR,
           inst_bare TDC,
           inst_value SEP 0x20,
           inst LDX 0x000A IMM16,
           inst STX 0x2A DIR,
           inst JSL slow_div_rom_addr LNG,
           inst LDX 0x32 DIR,
           inst STX 0x28 DIR,
           inst LDX current_damage_offset ABS,
           inst STX 0x2A DIR,
           inst JSL slow_mult_rom_addr LNG,
           inst LDX 0x2C DIR,
           inst STX 0x28 DIR,
           inst LDA 0x1E DIR,
           inst_bare TAX,
           inst STX 0x2A DIR,
           inst JSL slow_div_rom_addr LNG,
           inst LDX 0x2C DIR,
           inst STX current_damage_offset ABS,
           inst_bare RTS ])"

definition gather_new_effects_and_rts :: "error + byte list list \<times> asm_item list list" where
  "gather_new_effects_and_rts =
     (let routines = [get_venus_bow_rt, get_spellslinger_rt]
      in case sequence_results
                [ py_bytes [max_vanilla_routine_index + 1, 0, 0],
                  get_spellslinger_effect (max_vanilla_routine_index + 2) 2,
                  py_bytes [0x26, 0x44, 0],
                  py_bytes [0, 0, 0],
                  py_bytes [0, 1, 0],
                  py_bytes [0, 2, 0] ] of
           Inl e \<Rightarrow> Inl e
         | Inr effects \<Rightarrow> Inr (effects, routines))"

text \<open>Shorthand for the six records that \<^verbatim>\<open>gather_new_effects_and_rts\<close> returns.\<close>

abbreviation new_effect_records :: "byte list list" where
  "new_effect_records \<equiv>
     [ [0x43, 0, 0], [0x44, 0, 2], [0x26, 0x44, 0], [0, 0, 0], [0, 1, 0], [0, 2, 0] ]"

text \<open>The list \<^verbatim>\<open>rt\<close> of \<^verbatim>\<open>add_independent_sunshades_effect\<close>.\<close>

definition sunshades_hook_rom_addr :: nat where
  "sunshades_hook_rom_addr = 0xC1E5D8"

definition sunshades_return_rom_addr :: int where
  "sunshades_return_rom_addr = 0xC1E5DE"

definition sunshades_rt :: "asm_item list" where
  "sunshades_rt =
     (let slow_mult_rom_addr = 0xC1FDBF;
          slow_div_rom_addr = 0xC1FDD3
      in [ inst LDA crown_offset ABS_X,
           inst BIT crown_bit IMM8,
           inst_label BEQ ''end'',
           inst LDX 0x2C DIR,
           inst STX 0x28 DIR,
           inst LDX 0x0004 IMM16,
           inst STX 0x2A DIR,
           inst JSL slow_div_rom_addr LNG,
           inst LDX 0x2C DIR,
           inst STX 0x28 DIR,
           inst LDX 0x0005 IMM16,
           inst STX 0x2A DIR,
           inst JSL slow_mult_rom_addr LNG,
           LabelMark ''end'',
           inst LDX 0xB1F4 ABS,
           inst LDA 0x5E4B ABS_X,
           inst JMP sunshades_return_rom_addr LNG ])"

definition add_independent_sunshades_effect ::
  "'sm externals \<Rightarrow> 'sm CTRom \<Rightarrow> error + 'sm CTRom" where
  "add_independent_sunshades_effect ext ct_rom =
     (let hook_file_addr = to_file_ptr ext sunshades_hook_rom_addr
      in apply_jmp_patch ext sunshades_rt hook_file_addr ct_rom (Some 0x410000))"

text \<open>
  \<^verbatim>\<open>make_effect_rt\<close>, local to \<^verbatim>\<open>patch_additional_armor_effects\<close>; its first argument is the
  enclosing function's \<^verbatim>\<open>effect_mod_start_rom\<close>.
\<close>

definition make_effect_rt :: "int \<Rightarrow> int \<Rightarrow> int \<Rightarrow> asm_item list" where
  "make_effect_rt effect_mod_start_rom battle_index hook_rom_addr =
     (let pc_stat_base = 0x5E2D + 0x80 * battle_index;
          local_crown_offset = crown_offset - 0x5E2D;
          local_status_offset = 0x5E50 - 0x5E2D;
          local_haste_offset = local_status_offset + 2;
          element_offset = 0x3F;
          early_return_rom_addr = hook_rom_addr + 4;
          late_return_rom_addr = hook_rom_addr + 15
      in [ inst LDA effect_mod_start_rom LNG_X,
           inst CMP 0x00 IMM8,
           inst_label BEQ ''new_rt'',
           inst JMP early_return_rom_addr LNG,
           LabelMark ''new_rt'',
           inst LDA (effect_mod_start_rom + 1) LNG_X,
           inst CMP 0x00 IMM8,
           inst_label BNE ''crown'',
           inst LDA 0x00 IMM8,
           inst STA (pc_stat_base + element_offset) ABS,
           inst STA (pc_stat_base + element_offset + 1) ABS,
           inst STA (pc_stat_base + element_offset + 2) ABS,
           inst STA (pc_stat_base + element_offset + 3) ABS,
           inst JMP late_return_rom_addr LNG,
           LabelMark ''crown'',
           inst_mode DEC NO_ARG,
           inst_label BNE ''tiara'',
           inst LDA 0x80 IMM8,
           inst TSB (pc_stat_base + local_crown_offset) ABS,
           inst LDA 0xFF IMM8,
           inst TSB (pc_stat_base + local_status_offset) ABS,
           inst JMP late_return_rom_addr LNG,
           LabelMark ''tiara'',
           inst_mode DEC NO_ARG,
           inst_label BNE ''end'',
           inst LDA 0x80 IMM8,
           inst TSB (pc_stat_base + local_haste_offset) ABS,
           inst LDA 0xFF IMM8,
           inst TSB (pc_stat_base + local_status_offset) ABS,
           LabelMark ''end'',
           inst JMP late_return_rom_addr LNG ])"

definition hook_pc_pairs :: "(nat \<times> nat) list" where
  "hook_pc_pairs =
     [ (0xFDB5A9, 0),
       (0xFDB5C8, 1),
       (0xFDB5E7, 2),
       (0xFDB607, 0),
       (0xFDB626, 1),
       (0xFDB645, 2) ]"

text \<open>The \<^verbatim>\<open>for\<close> loop of \<^verbatim>\<open>patch_additional_armor_effects\<close>.\<close>

fun patch_hooks ::
  "'sm externals \<Rightarrow> int \<Rightarrow> (nat \<times> nat) list \<Rightarrow> 'sm CTRom \<Rightarrow> error + 'sm CTRom" where
  "patch_hooks ext effect_mod_start_rom [] ct_rom = Inr ct_rom"
| "patch_hooks ext effect_mod_start_rom ((rom_hook, pc_id) # rest) ct_rom =
     (let file_hook = to_file_ptr ext rom_hook;
          rt = make_effect_rt effect_mod_start_rom (int pc_id) (int rom_hook)
      in case apply_jmp_patch ext rt file_hook ct_rom None of
           Inl e \<Rightarrow> Inl e
         | Inr rom1 \<Rightarrow> patch_hooks ext effect_mod_start_rom rest rom1)"

definition patch_additional_armor_effects ::
  "'sm externals \<Rightarrow> 'sm CTRom \<Rightarrow> nat \<Rightarrow> error + 'sm CTRom" where
  "patch_additional_armor_effects ext ct_rom effect_mod_start_file =
     (let effect_mod_start_rom = int (to_rom_ptr ext effect_mod_start_file)
      in patch_hooks ext effect_mod_start_rom hook_pc_pairs ct_rom)"

text \<open>
  The calls of \<^verbatim>\<open>apply_jmp_patch\<close> that this module makes, in the order in which
  \<^verbatim>\<open>expand_effect_mods\<close> makes them: the routine, the ROM address of its hook, and the hint.
  These are the six calls of \<^verbatim>\<open>patch_additional_armor_effects\<close>, then the one of
  \<^verbatim>\<open>add_independent_sunshades_effect\<close>.
\<close>

definition jmp_patch_routines :: "int \<Rightarrow> (asm_item list \<times> nat \<times> nat option) list" where
  "jmp_patch_routines effect_mod_start_rom =
     map (\<lambda>(rom_hook, pc_id).
            (make_effect_rt effect_mod_start_rom (int pc_id) (int rom_hook), rom_hook, None))
         hook_pc_pairs
     @ [(sunshades_rt, sunshades_hook_rom_addr, Some 0x410000)]"

text \<open>Making a list of such calls one after the other.\<close>

fun apply_jmp_patches ::
  "'sm externals \<Rightarrow> (asm_item list \<times> nat \<times> nat option) list \<Rightarrow> 'sm CTRom
     \<Rightarrow> error + 'sm CTRom" where
  "apply_jmp_patches ext [] ct_rom = Inr ct_rom"
| "apply_jmp_patches ext ((rt, rom_hook, hint) # rest) ct_rom =
     (case apply_jmp_patch ext rt (to_file_ptr ext rom_hook) ct_rom hint of
        Inl e \<Rightarrow> Inl e
      | Inr rom1 \<Rightarrow> apply_jmp_patches ext rest rom1)"

subsection \<open>expand_effect_mods\<close>

text \<open>
  The body of \<^verbatim>\<open>expand_effect_mods\<close> is modelled in the order of the source, one
  definition per block: the relocated table, the rewriting of the references, the new
  routines with their pointer table and the bank switch, then the two patches.
\<close>

text \<open>The list \<^verbatim>\<open>effects\<close> after \<^verbatim>\<open>effects += additional_effects\<close>, and the new routines.\<close>

definition relocated_effects ::
  "'sm externals \<Rightarrow> 'sm CTRom \<Rightarrow> error + byte list list \<times> asm_item list list" where
  "relocated_effects ext ct_rom =
     (let effects = gather_vanilla_effects ext ct_rom
      in case gather_new_effects_and_rts of
           Inl e \<Rightarrow> Inl e
         | Inr (additional_effects, additional_effect_routines) \<Rightarrow>
             Inr (effects @ additional_effects, additional_effect_routines))"

text \<open>
  Writing out the new effects: the allocated \<^verbatim>\<open>new_eff_start\<close>, the new routines, and the
  image after the write.
\<close>

definition write_effect_table ::
  "'sm externals \<Rightarrow> 'sm CTRom \<Rightarrow> error + nat \<times> asm_item list list \<times> 'sm CTRom" where
  "write_effect_table ext ct_rom =
     (case relocated_effects ext ct_rom of
        Inl e \<Rightarrow> Inl e
      | Inr (effects, additional_effect_routines) \<Rightarrow>
          (let new_size = length effects * EffectMod_SIZE
           in case get_free_addr ext (space_manager ct_rom) new_size (Some 0x410000) of
                Inl e \<Rightarrow> Inl e
              | Inr (new_eff_start, sm) \<Rightarrow>
                  (let payload = concat effects
                   in Inr (new_eff_start, additional_effect_routines,
                           CTRom_write ext payload MARK_USED
                             (CTRom_seek new_eff_start (ct_rom \<lparr> space_manager := sm \<rparr>))))))"

text \<open>\<^verbatim>\<open>addr_offset_dict\<close>, in insertion order (the order in which a \<^verbatim>\<open>dict\<close> is iterated).\<close>

definition addr_offset_dict :: "(nat \<times> nat) list" where
  "addr_offset_dict =
     [ (0x01EB2E, 1), (0x01EB36, 2), (0x01EB3E, 0),
       (0x3DB5B2, 1),
       (0x3DB5D1, 1),
       (0x3DB5F0, 1),
       (0x3DB610, 1),
       (0x3DB62F, 1),
       (0x3DB64E, 1) ]"

text \<open>The loop over \<^verbatim>\<open>addr_offset_dict.items()\<close>.\<close>

fun rewrite_references ::
  "'sm externals \<Rightarrow> nat \<Rightarrow> (nat \<times> nat) list \<Rightarrow> 'sm CTRom \<Rightarrow> error + 'sm CTRom" where
  "rewrite_references ext rom_addr [] ct_rom = Inr ct_rom"
| "rewrite_references ext rom_addr ((addr, offset) # rest) ct_rom =
     (case int_to_bytes (int (rom_addr + offset)) 3 of
        Inl e \<Rightarrow> Inl e
      | Inr b \<Rightarrow>
          rewrite_references ext rom_addr rest
            (CTRom_write ext b NO_MARK (CTRom_seek addr ct_rom)))"

text \<open>The offsets that belong to one of the reference sites of \<^verbatim>\<open>addr_offset_dict\<close>.\<close>

definition is_reference_byte :: "nat \<Rightarrow> bool" where
  "is_reference_byte x =
     list_ex (\<lambda>(addr, offset). addr \<le> x \<and> x < addr + 3) addr_offset_dict"

definition hook_addr :: nat where
  "hook_addr = 0x01EB41"

definition make_bank_switch_rt :: "int \<Rightarrow> asm_item list" where
  "make_bank_switch_rt ptr_table_rom_st =
     [ inst STA 0x20 DIR,
       inst CMP (max_vanilla_routine_index + 1) IMM8,
       inst_label BCS ''new_bank'',
       inst_mode ASL NO_ARG,
       inst_bare TAX,
       inst JMP 0xC1EB45 LNG,
       LabelMark ''new_bank'',
       inst_bare SEC,
       inst SBC (max_vanilla_routine_index + 1) IMM8,
       inst_mode ASL NO_ARG,
       inst_bare TAX,
       inst JSR (ptr_table_rom_st AND 0xFFFF) ABS_X_16,
       inst JMP 0xC1EB48 LNG ]"

text \<open>
  Steps 2 and 3: the assembled new routines and \<^verbatim>\<open>total_size\<close>, the size asked of the
  allocator.
\<close>

definition assemble_effect_routines ::
  "'sm externals \<Rightarrow> asm_item list list \<Rightarrow> error + byte list list \<times> nat" where
  "assemble_effect_routines ext additional_effect_routines =
     (case sequence_results (map (assemble ext) additional_effect_routines) of
        Inl e \<Rightarrow> Inl e
      | Inr effect_rts \<Rightarrow>
          (let effect_rt_lens = map length effect_rts;
               dummy_rt = make_bank_switch_rt 0
           in case assemble ext dummy_rt of
                Inl e \<Rightarrow> Inl e
              | Inr dummy_b \<Rightarrow>
                  (let bank_switch_rt_size = length dummy_b;
                       total_size = sum_list effect_rt_lens + 2 * length effect_rts
                                    + bank_switch_rt_size
                   in Inr (effect_rts, total_size))))"

text \<open>The loop \<^verbatim>\<open>for length in effect_rt_lens[:-1]: ptrs.append(ptrs[-1] + length)\<close>.\<close>

fun append_ptrs :: "nat list \<Rightarrow> nat list \<Rightarrow> nat list" where
  "append_ptrs ptrs [] = ptrs"
| "append_ptrs ptrs (len # lens) = append_ptrs (ptrs @ [last ptrs + len]) lens"

text \<open>The pair \<^verbatim>\<open>(ptr_b, rt_b)\<close> of step 4.\<close>

definition pointer_table ::
  "nat \<Rightarrow> asm_item list list \<Rightarrow> byte list list \<Rightarrow> error + byte list \<times> byte list" where
  "pointer_table payload_addr additional_effect_routines effect_rts =
     (if additional_effect_routines \<noteq> [] then
        (let first_ptr = (payload_addr + length additional_effect_routines * 2) AND 0xFFFF;
             rt_b = concat effect_rts;
             ptrs = append_ptrs [first_ptr] (butlast (map length effect_rts))
         in case sequence_results (map (\<lambda>ptr. int_to_bytes (int ptr) 2) ptrs) of
              Inl e \<Rightarrow> Inl e
            | Inr ptr_bs \<Rightarrow> Inr (concat ptr_bs, rt_b))
      else Inr ([], []))"

text \<open>
  Step 4 up to the length check: the payload and the offset of the bank-switch routine
  in it (\<^verbatim>\<open>len(rt_b) + len(ptr_b)\<close>).
\<close>

definition build_payload ::
  "'sm externals \<Rightarrow> nat \<Rightarrow> asm_item list list \<Rightarrow> byte list list \<Rightarrow> nat
     \<Rightarrow> error + byte list \<times> nat" where
  "build_payload ext payload_addr additional_effect_routines effect_rts total_size =
     (let real_bank_switch_rt = make_bank_switch_rt (int (to_rom_ptr ext payload_addr))
      in case assemble ext real_bank_switch_rt of
           Inl e \<Rightarrow> Inl e
         | Inr real_bank_switch_rt_b \<Rightarrow>
             (case pointer_table payload_addr additional_effect_routines effect_rts of
                Inl e \<Rightarrow> Inl e
              | Inr (ptr_b, rt_b) \<Rightarrow>
                  (let payload = ptr_b @ rt_b @ real_bank_switch_rt_b
                   in if length payload \<noteq> total_size then Inl (ValueError [])
                      else Inr (payload, length rt_b + length ptr_b))))"

text \<open>Steps 2 to 4 with the two writes: the payload, then the hook at \<open>0x01EB41\<close>.\<close>

definition install_effect_routines ::
  "'sm externals \<Rightarrow> asm_item list list \<Rightarrow> 'sm CTRom \<Rightarrow> error + 'sm CTRom" where
  "install_effect_routines ext additional_effect_routines ct_rom =
     (case assemble_effect_routines ext additional_effect_routines of
        Inl e \<Rightarrow> Inl e
      | Inr (effect_rts, total_size) \<Rightarrow>
          (case get_free_addr ext (space_manager ct_rom) total_size (Some 0x410000) of
             Inl e \<Rightarrow> Inl e
           | Inr (payload_addr, sm) \<Rightarrow>
               (case build_payload ext payload_addr additional_effect_routines effect_rts
                       total_size of
                  Inl e \<Rightarrow> Inl e
                | Inr (payload, switch_offset) \<Rightarrow>
                    (let bank_switch_addr = to_rom_ptr ext (payload_addr + switch_offset);
                         hook = [inst JMP (int (to_rom_ptr ext bank_switch_addr)) LNG]
                     in case assemble ext hook of
                          Inl e \<Rightarrow> Inl e
                        | Inr hook_b \<Rightarrow>
                            Inr (CTRom_write ext hook_b NO_MARK
                                  (CTRom_seek hook_addr
                                    (CTRom_write ext payload MARK_USED
                                      (CTRom_seek payload_addr
                                        (ct_rom \<lparr> space_manager := sm \<rparr>)))))))))"

definition expand_effect_mods :: "'sm externals \<Rightarrow> 'sm CTRom \<Rightarrow> error + 'sm CTRom" where
  "expand_effect_mods ext ct_rom =
     (case write_effect_table ext ct_rom of
        Inl e \<Rightarrow> Inl e
      | Inr (new_eff_start, additional_effect_routines, rom1) \<Rightarrow>
          (let rom_addr = to_rom_ptr ext new_eff_start
           in case rewrite_references ext rom_addr addr_offset_dict rom1 of
                Inl e \<Rightarrow> Inl e
              | Inr rom2 \<Rightarrow>
                  (case install_effect_routines ext additional_effect_routines rom2 of
                     Inl e \<Rightarrow> Inl e
                   | Inr rom3 \<Rightarrow>
                       (case patch_additional_armor_effects ext rom3 new_eff_start of
                          Inl e \<Rightarrow> Inl e
                        | Inr rom4 \<Rightarrow> add_independent_sunshades_effect ext rom4))))"

subsection \<open>An example image\<close>

text \<open>
  A concrete instance of the parameters, used to run \<^verbatim>\<open>expand_effect_mods\<close>: the HiROM
  address mapping that the disassembly comments of the source follow (\<open>0xC1EB3D\<close> is
  image offset \<open>0x01EB3D\<close>, \<open>0xFDB5A9\<close> is \<open>0x3DB5A9\<close>, offsets from \<open>0x400000\<close> are their
  own ROM address), an allocator that hands out consecutive ranges starting at its state and
  never below \<open>0x410000\<close>, and an opcode table that is constantly 0. The image is zero except for the pointer to
  the vanilla effect table and the first vanilla record.
\<close>

definition example_ext :: "nat externals" where
  "example_ext =
     \<lparr> to_rom_ptr = (\<lambda>a. if a < 0x400000 then a + 0xC00000 else a),
       to_file_ptr = (\<lambda>a. if 0xC00000 \<le> a then a - 0xC00000 else a),
       get_free_addr = (\<lambda>sm size hint. Inr (max sm 0x410000, max sm 0x410000 + size)),
       mark_used = (\<lambda>sm start len. sm),
       opcode = (\<lambda>m am. 0) \<rparr>"

definition example_rom :: "nat CTRom" where
  "example_rom =
     \<lparr> rom_data = (\<lambda>a. 0)
         (0x01EB3E := 0x05, 0x01EB3F := 0x2A, 0x01EB40 := 0xCC,
          0x0C2A05 := 0x11, 0x0C2A06 := 0x22, 0x0C2A07 := 0x33),
       rom_pos = 0,
       space_manager = 0x410000 \<rparr>"

section \<open>Properties of TechOptions\<close>







section \<open>Properties of Distribution\<close>




lemma add_weights_Cons_Inr:
  "add_weights r c (w # ws) = Inr t \<Longrightarrow> \<exists>c1. num_add r c w = Inr c1 \<and> add_weights r c1 ws = Inr t"
  by (auto split: sum.splits)










section \<open>Properties of the effect routines\<close>

lemma gather_new_effects_and_rts_eq:
  "gather_new_effects_and_rts =
     Inr ([ [0x43, 0, 0], [0x44, 0, 2], [0x26, 0x44, 0], [0, 0, 0], [0, 1, 0], [0, 2, 0] ],
          [get_venus_bow_rt, get_spellslinger_rt])"
  by (simp add: gather_new_effects_and_rts_def get_spellslinger_effect_def py_bytes_def
      max_vanilla_routine_index_def)

text \<open>
  The list that \<^verbatim>\<open>make_bank_switch_rt\<close> returns, written out: the compared threshold and the
  subtracted constant are both \<^verbatim>\<open>_max_vanilla_routine_index + 1\<close>, which is \<open>0x43\<close>, and the
  operand of the \<^verbatim>\<open>JSR\<close> is \<open>p mod 0x10000\<close>.
\<close>

lemma make_bank_switch_rt_eq:
  "make_bank_switch_rt p =
     [ inst STA 0x20 DIR,
       inst CMP 0x43 IMM8,
       inst_label BCS ''new_bank'',
       inst_mode ASL NO_ARG,
       inst_bare TAX,
       inst JMP 0xC1EB45 LNG,
       LabelMark ''new_bank'',
       inst_bare SEC,
       inst SBC 0x43 IMM8,
       inst_mode ASL NO_ARG,
       inst_bare TAX,
       inst JSR (p AND 0xFFFF) ABS_X_16,
       inst JMP 0xC1EB48 LNG ]
   \<and> max_vanilla_routine_index + 1 = 0x43
   \<and> p AND 0xFFFF = p mod 0x10000"
proof -
  have "p AND mask 16 = p mod 2 ^ 16"
    by (simp flip: take_bit_eq_mask add: take_bit_eq_mod)
  then have "p AND 0xFFFF = p mod 0x10000" by (simp add: mask_eq_exp_minus_1)
  then show ?thesis
  by (simp add: make_bank_switch_rt_def max_vanilla_routine_index_def)
qed

lemma make_effect_rt_last:
  "make_effect_rt s b h \<noteq> [] \<and> last (make_effect_rt s b h) = inst JMP (h + 15) LNG"
  by (simp add: make_effect_rt_def Let_def)

text \<open>The two patching functions make exactly the calls listed in \<open>jmp_patch_routines\<close>.\<close>

lemma patch_hooks_as_calls:
  "patch_hooks ext s pairs ct_rom =
     apply_jmp_patches ext
       (map (\<lambda>(rom_hook, pc_id). (make_effect_rt s (int pc_id) (int rom_hook), rom_hook, None))
            pairs) ct_rom"
  by (induction pairs arbitrary: ct_rom) (auto simp: Let_def split: sum.splits)

lemma apply_jmp_patches_append:
  "apply_jmp_patches ext (xs @ ys) ct_rom =
     (case apply_jmp_patches ext xs ct_rom of
        Inl e \<Rightarrow> Inl e
      | Inr rom1 \<Rightarrow> apply_jmp_patches ext ys rom1)"
  by (induction xs arbitrary: ct_rom) (auto split: sum.splits)

lemma patches_are_jmp_patch_routines:
  "(case patch_additional_armor_effects ext ct_rom effect_mod_start_file of
      Inl e \<Rightarrow> Inl e
    | Inr rom1 \<Rightarrow> add_independent_sunshades_effect ext rom1)
   = apply_jmp_patches ext
       (jmp_patch_routines (int (to_rom_ptr ext effect_mod_start_file))) ct_rom"
  by (simp add: patch_additional_armor_effects_def add_independent_sunshades_effect_def
      jmp_patch_routines_def patch_hooks_as_calls apply_jmp_patches_append Let_def
      split: sum.splits)

text \<open>
  Claim C6. The routine of \<^verbatim>\<open>add_independent_sunshades_effect\<close> ends with the displaced
  \<^verbatim>\<open>LDX $B1F4\<close> (absolute) and \<^verbatim>\<open>LDA $5E4B,X\<close> (absolute indexed) followed by a long \<^verbatim>\<open>JMP\<close>
  to \<open>0xC1E5DE\<close>, which is its hook address \<open>0xC1E5D8\<close> plus 6. Every routine returned by
  \<^verbatim>\<open>make_effect_rt\<close> ends with a long \<^verbatim>\<open>JMP\<close> to \<^verbatim>\<open>hook_rom_addr + 15\<close>. So each of the seven
  routines handed to \<^verbatim>\<open>apply_jmp_patch\<close> ends with a long jump to its own hook address plus
  15 (armor and helm hooks) or plus 6 (sunshades hook).
\<close>

theorem jmp_patch_routines_return:
  "last sunshades_rt = inst JMP 0xC1E5DE LNG
   \<and> (0xC1E5DE :: int) = int sunshades_hook_rom_addr + 6
   \<and> (\<exists>pre. sunshades_rt =
          pre @ [inst LDX 0xB1F4 ABS, inst LDA 0x5E4B ABS_X, inst JMP 0xC1E5DE LNG])
   \<and> make_effect_rt s b h \<noteq> [] \<and> last (make_effect_rt s b h) = inst JMP (h + 15) LNG
   \<and> map (\<lambda>(rt, rom_hook, hint). (last rt, rom_hook)) (jmp_patch_routines s) =
       [ (inst JMP (0xFDB5A9 + 15) LNG, 0xFDB5A9),
         (inst JMP (0xFDB5C8 + 15) LNG, 0xFDB5C8),
         (inst JMP (0xFDB5E7 + 15) LNG, 0xFDB5E7),
         (inst JMP (0xFDB607 + 15) LNG, 0xFDB607),
         (inst JMP (0xFDB626 + 15) LNG, 0xFDB626),
         (inst JMP (0xFDB645 + 15) LNG, 0xFDB645),
         (inst JMP (0xC1E5D8 + 6) LNG, 0xC1E5D8) ]"
proof -
  have sun: "sunshades_rt = take 14 sunshades_rt @ [inst LDX 0xB1F4 ABS, inst LDA 0x5E4B ABS_X, inst JMP 0xC1E5DE LNG]"
    by (simp add: sunshades_rt_def sunshades_return_rom_addr_def Let_def)
  have 1: "last sunshades_rt = inst JMP 0xC1E5DE LNG"
    by (simp add: sunshades_rt_def sunshades_return_rom_addr_def Let_def)
  have 2: "(0xC1E5DE :: int) = int sunshades_hook_rom_addr + 6"
    by (simp add: sunshades_hook_rom_addr_def)
  have 3: "map (\<lambda>(rt, rom_hook, hint). (last rt, rom_hook)) (jmp_patch_routines s) =
       [ (inst JMP (0xFDB5A9 + 15) LNG, 0xFDB5A9),
         (inst JMP (0xFDB5C8 + 15) LNG, 0xFDB5C8),
         (inst JMP (0xFDB5E7 + 15) LNG, 0xFDB5E7),
         (inst JMP (0xFDB607 + 15) LNG, 0xFDB607),
         (inst JMP (0xFDB626 + 15) LNG, 0xFDB626),
         (inst JMP (0xFDB645 + 15) LNG, 0xFDB645),
         (inst JMP (0xC1E5D8 + 6) LNG, 0xC1E5D8) ]"
    by (simp add: jmp_patch_routines_def hook_pc_pairs_def make_effect_rt_last 1 sunshades_hook_rom_addr_def)
  show ?thesis using sun 1 2 3 make_effect_rt_last [of s b h] by blast
qed


section \<open>The relocated effect table\<close>

lemma write_bytes_outside:
  "a < p \<or> p + length bs \<le> a \<Longrightarrow> write_bytes mem p bs a = mem a"
  by (induction bs arbitrary: mem p) auto

lemma write_bytes_inside:
  "i < length bs \<Longrightarrow> write_bytes mem p bs (p + i) = bs ! i"
proof (induction bs arbitrary: mem p i)
  case Nil
  then show ?case by simp
next
  case (Cons b bs)
  show ?case
  proof (cases i)
    case 0
    then show ?thesis by (simp add: write_bytes_outside)
  next
    case (Suc k)
    with Cons.prems have "k < length bs" by simp
    then have "write_bytes (mem (p := b)) (Suc p) bs (Suc p + k) = bs ! k"
      by (rule Cons.IH)
    then show ?thesis by (simp add: Suc)
  qed
qed

lemma map_write_bytes_slice:
  assumes "k + n \<le> length bs"
  shows "map (write_bytes mem p bs) [p + k ..< p + k + n] = take n (drop k bs)"
proof (rule nth_equalityI)
  show "length (map (write_bytes mem p bs) [p + k ..< p + k + n]) = length (take n (drop k bs))"
    using assms by simp
next
  fix i assume "i < length (map (write_bytes mem p bs) [p + k ..< p + k + n])"
  then have i: "i < n" by simp
  then have "k + i < length bs" using assms by simp
  then have "write_bytes mem p bs (p + (k + i)) = bs ! (k + i)"
    by (rule write_bytes_inside)
  then show "map (write_bytes mem p bs) [p + k ..< p + k + n] ! i = take n (drop k bs) ! i"
    using i assms by (simp add: add.assoc)
qed

lemma concat_block:
  "\<forall>x \<in> set xs. length x = n \<Longrightarrow> i < length xs \<Longrightarrow> take n (drop (i * n) (concat xs)) = xs ! i"
proof (induction xs arbitrary: i)
  case Nil
  then show ?case by simp
next
  case (Cons x xs)
  show ?case
  proof (cases i)
    case 0
    then show ?thesis using Cons.prems by simp
  next
    case (Suc k)
    then show ?thesis using Cons.prems Cons.IH [of k] by simp
  qed
qed

lemma length_concat_blocks:
  "\<forall>x \<in> set xs. length x = n \<Longrightarrow> length (concat xs) = length xs * n"
  by (induction xs) auto

lemma length_read_from_ctrom: "length (read_from_ctrom ext ct_rom ind) = 3"
  by (simp add: read_from_ctrom_def read_at_def EffectMod_SIZE_def)

lemma relocated_effects_eq:
  "relocated_effects ext ct_rom =
     Inr (map (read_from_ctrom ext ct_rom) [0 ..< 0x39] @ new_effect_records,
          [get_venus_bow_rt, get_spellslinger_rt])"
  by (simp add: relocated_effects_def gather_new_effects_and_rts_eq gather_vanilla_effects_def
      vanilla_effect_count_def)

lemma relocated_blocks:
  "\<forall>x \<in> set (map (read_from_ctrom ext ct_rom) [0 ..< 0x39] @ new_effect_records). length x = 3"
  by (auto simp: length_read_from_ctrom)

lemma write_effect_table_eq:
  "write_effect_table ext ct_rom =
     (case get_free_addr ext (space_manager ct_rom) ((0x39 + 6) * 3) (Some 0x410000) of
        Inl e \<Rightarrow> Inl e
      | Inr (new_eff_start, sm) \<Rightarrow>
          Inr (new_eff_start, [get_venus_bow_rt, get_spellslinger_rt],
               CTRom_write ext (concat (map (read_from_ctrom ext ct_rom) [0 ..< 0x39] @ new_effect_records))
                 MARK_USED (CTRom_seek new_eff_start (ct_rom \<lparr> space_manager := sm \<rparr>))))"
  by (simp add: write_effect_table_def relocated_effects_eq EffectMod_SIZE_def
      split: sum.splits prod.splits)

text \<open>
  Claim C2. When the table write of \<^verbatim>\<open>expand_effect_mods\<close> succeeds, what it writes at the
  allocated \<^verbatim>\<open>new_eff_start\<close> is the concatenation of the \<open>0x39\<close> vanilla records, read
  through the \<^verbatim>\<open>EffectMod\<close> pointer in index order, followed by the records of
  \<^verbatim>\<open>gather_new_effects_and_rts\<close> in order. In the relocated table every record \<open>ind < 0x39\<close>
  (record 0 in particular) equals the vanilla record \<open>ind\<close>, record \<open>0x39\<close> is
  \<open>[0x43, 0, 0]\<close>, and record \<open>0x3A\<close> is the spellslinger record \<open>[0x44, 0x00, 0x02]\<close>.
\<close>

theorem relocated_effect_table:
  assumes "write_effect_table ext ct_rom = Inr (new_eff_start, rts, rom1)"
  shows "rom_data rom1 =
           write_bytes (rom_data ct_rom) new_eff_start
             (concat (map (read_from_ctrom ext ct_rom) [0 ..< 0x39]
                      @ [ [0x43, 0, 0], [0x44, 0, 2], [0x26, 0x44, 0], [0, 0, 0], [0, 1, 0], [0, 2, 0] ]))
       \<and> (\<forall>ind < 0x39. read_at rom1 (new_eff_start + ind * 3) 3 = read_from_ctrom ext ct_rom ind)
       \<and> read_at rom1 (new_eff_start + 0 * 3) 3 = read_from_ctrom ext ct_rom 0
       \<and> read_at rom1 (new_eff_start + 0x39 * 3) 3 = [0x43, 0, 0]
       \<and> read_at rom1 (new_eff_start + 0x3A * 3) 3 = [0x44, 0x00, 0x02]"
proof -
  let ?effects = "map (read_from_ctrom ext ct_rom) [0 ..< 0x39] @ new_effect_records"
  from assms obtain sm where
    rom1: "rom1 = CTRom_write ext (concat ?effects) MARK_USED
                    (CTRom_seek new_eff_start (ct_rom \<lparr> space_manager := sm \<rparr>))"
    by (auto simp: write_effect_table_eq split: sum.splits)
  have data: "rom_data rom1 = write_bytes (rom_data ct_rom) new_eff_start (concat ?effects)"
    by (simp add: rom1 CTRom_write_def CTRom_seek_def)
  have len: "length ?effects = 0x39 + 6" by simp
  have blocks: "\<forall>x \<in> set ?effects. length x = 3" by (rule relocated_blocks)
  have total: "length (concat ?effects) = (0x39 + 6) * 3"
    using length_concat_blocks [OF blocks] len by simp
  have rec: "read_at rom1 (new_eff_start + i * 3) 3 = ?effects ! i" if "i < 0x39 + 6" for i
  proof -
    from that have "i * 3 + 3 \<le> length (concat ?effects)"
      unfolding total by simp
    from map_write_bytes_slice [OF this, of "rom_data ct_rom" new_eff_start]
    have "read_at rom1 (new_eff_start + i * 3) 3 = take 3 (drop (i * 3) (concat ?effects))"
      by (simp add: read_at_def data)
    also have "\<dots> = ?effects ! i"
      by (rule concat_block [OF blocks]) (use that in simp)
    finally show ?thesis .
  qed
  have vanilla: "read_at rom1 (new_eff_start + ind * 3) 3 = read_from_ctrom ext ct_rom ind"
    if "ind < 0x39" for ind
  proof -
    have "read_at rom1 (new_eff_start + ind * 3) 3 = ?effects ! ind"
      by (rule rec) (use that in simp)
    also have "\<dots> = map (read_from_ctrom ext ct_rom) [0 ..< 0x39] ! ind"
      using that by (simp add: nth_append del: upt_Suc)
    also have "\<dots> = read_from_ctrom ext ct_rom ind"
      using that by (simp del: upt_Suc)
    finally show ?thesis .
  qed
  have venus: "read_at rom1 (new_eff_start + 0x39 * 3) 3 = [0x43, 0, 0]"
    using rec [of "0x39"] by (simp add: nth_append del: upt_Suc)
  have spell: "read_at rom1 (new_eff_start + 0x3A * 3) 3 = [0x44, 0x00, 0x02]"
    using rec [of "0x3A"] by (simp add: nth_append del: upt_Suc)
  have first: "read_at rom1 (new_eff_start + 0 * 3) 3 = read_from_ctrom ext ct_rom 0"
    by (rule vanilla) simp
  from vanilla have all_vanilla:
    "\<forall>ind < 0x39. read_at rom1 (new_eff_start + ind * 3) 3 = read_from_ctrom ext ct_rom ind"
    by blast
  from data all_vanilla first venus spell show ?thesis by (intro conjI)
qed

text \<open>
  Claim C7, amended. The relocated effect table extends the \<open>0x39\<close> vanilla records by the
  six records of \<^verbatim>\<open>gather_new_effects_and_rts\<close> (two weapon effects and four armor
  effects), each of 3 bytes: the allocator is asked for \<open>(0x39 + 6) * 3 = 189\<close> bytes and the
  payload written at \<^verbatim>\<open>new_eff_start\<close> is 189 bytes long, \<open>0x3F\<close> records.
\<close>

theorem effect_table_size:
  "\<exists>effects. relocated_effects ext ct_rom = Inr (effects, [get_venus_bow_rt, get_spellslinger_rt])
     \<and> length effects = 0x39 + 6
     \<and> list_all (\<lambda>e. length e = 3) effects
     \<and> length (concat effects) = (0x39 + 6) * 3
     \<and> write_effect_table ext ct_rom =
         (case get_free_addr ext (space_manager ct_rom) ((0x39 + 6) * 3) (Some 0x410000) of
            Inl e \<Rightarrow> Inl e
          | Inr (new_eff_start, sm) \<Rightarrow>
              Inr (new_eff_start, [get_venus_bow_rt, get_spellslinger_rt],
                   CTRom_write ext (concat effects) MARK_USED
                     (CTRom_seek new_eff_start (ct_rom \<lparr> space_manager := sm \<rparr>))))"
proof -
  let ?effects = "map (read_from_ctrom ext ct_rom) [0 ..< 0x39] @ new_effect_records"
  have blocks: "\<forall>x \<in> set ?effects. length x = 3" by (rule relocated_blocks)
  have len: "length ?effects = 0x39 + 6" by simp
  have "length (concat ?effects) = (0x39 + 6) * 3"
    using length_concat_blocks [OF blocks] len by simp
  moreover have "list_all (\<lambda>e. length e = 3) ?effects"
    using blocks by (simp only: list_all_iff)
  ultimately show ?thesis
    using relocated_effects_eq [of ext ct_rom] write_effect_table_eq [of ext ct_rom] len
    by blast
qed

lemma relocated_total_length:
  "length (concat (map (read_from_ctrom ext ct_rom) [0 ..< 0x39] @ new_effect_records)) = 189"
  using length_concat_blocks [OF relocated_blocks, of ext ct_rom] by simp

lemma example_write_effect_table:
  "\<exists>rom1. write_effect_table example_ext example_rom =
     Inr (0x410000, [get_venus_bow_rt, get_spellslinger_rt], rom1) \<and> rom_pos rom1 = 0x4100BD"
proof -
  have "get_free_addr example_ext (space_manager example_rom) ((0x39 + 6) * 3) (Some 0x410000)
          = Inr (0x410000, 0x4100BD)"
    by (simp add: example_ext_def example_rom_def)
  then show ?thesis
    using relocated_total_length [of example_ext example_rom]
    by (simp add: write_effect_table_eq CTRom_write_def CTRom_seek_def del: upt_Suc concat_append map_append length_append)
qed

text \<open>
  Claim C7 as stated fails: on the example image the table write starts at \<open>0x410000\<close> and
  advances the stream position by 189 bytes, not by \<open>(0x39 + 2) * 3 = 177\<close>.
\<close>

theorem effect_table_size_counterexample:
  "(case write_effect_table example_ext example_rom of
      Inl e \<Rightarrow> None
    | Inr (new_eff_start, rts, rom1) \<Rightarrow> Some (new_eff_start, rom_pos rom1 - new_eff_start))
     = Some (0x410000, 189)
   \<and> (189 :: nat) \<noteq> (0x39 + 2) * 3"
  using example_write_effect_table by auto

lemma example_vanilla_record_0:
  "read_from_ctrom example_ext example_rom 0 = [0x11, 0x22, 0x33]"
proof -
  have "read_at example_rom EffectMod_ROM_RW 3 = [0x05, 0x2A, 0xCC]"
    by (simp add: read_at_def EffectMod_ROM_RW_def example_rom_def upt_rec_numeral)
  then have "get_data_start_from_ctrom example_ext example_rom = 0x0C2A05"
    by (simp add: get_data_start_from_ctrom_def example_ext_def)
  then show ?thesis
    by (simp add: read_from_ctrom_def read_at_def EffectMod_SIZE_def example_rom_def
        upt_rec_numeral)
qed

theorem relocated_effect_table_witness:
  "\<exists>rom1. write_effect_table example_ext example_rom =
            Inr (0x410000, [get_venus_bow_rt, get_spellslinger_rt], rom1)
     \<and> read_at rom1 (0x410000 + 0 * 3) 3 = [0x11, 0x22, 0x33]
     \<and> read_at rom1 (0x410000 + 0x3A * 3) 3 = [0x44, 0x00, 0x02]"
proof -
  from example_write_effect_table obtain rom1 where
    w: "write_effect_table example_ext example_rom =
          Inr (0x410000, [get_venus_bow_rt, get_spellslinger_rt], rom1)"
    by blast
  from relocated_effect_table [OF w] example_vanilla_record_0
  have "read_at rom1 (0x410000 + 0 * 3) 3 = [0x11, 0x22, 0x33]"
    and "read_at rom1 (0x410000 + 0x3A * 3) 3 = [0x44, 0x00, 0x02]"
    by simp_all
  with w show ?thesis by blast
qed


section \<open>The assembler, the pointer table and the payload\<close>

lemma length_le_bytes: "length (le_bytes v n) = n"
  by (induction n arbitrary: v) auto

lemma length_encode_operand:
  "encode_operand labels off am arg = Inr ob \<Longrightarrow> length ob = operand_len am"
  by (auto simp: encode_operand_def length_le_bytes Let_def
      split: argument.splits option.splits if_splits)

lemma length_emit:
  "emit ext labels rt off = Inr bs \<Longrightarrow> length bs = sum_list (map item_len rt)"
proof (induction ext labels rt off arbitrary: bs rule: emit.induct)
  case (1 ext labels off)
  then show ?case by simp
next
  case (2 ext labels l rest off)
  then show ?case by simp
next
  case (3 ext labels m arg md rest off)
  from "3.prems" obtain ob bs' where
    ob: "encode_operand labels off (mode_of arg md) arg = Inr ob"
    and rest: "emit ext labels rest (off + 1 + operand_len (mode_of arg md)) = Inr bs'"
    and bs: "bs = opcode ext m (mode_of arg md) # ob @ bs'"
    by (auto simp: Let_def split: sum.splits)
  from "3.IH" [OF refl ob rest] have "length bs' = sum_list (map item_len rest)" .
  with length_encode_operand [OF ob] bs show ?case by simp
qed

lemma length_assemble:
  "assemble ext rt = Inr bs \<Longrightarrow> length bs = sum_list (map item_len rt)"
  unfolding assemble_def by (rule length_emit)

lemma and_ffff_int: "(p :: int) AND 0xFFFF = p mod 0x10000"
proof -
  have "p AND mask 16 = p mod 2 ^ 16"
    by (simp flip: take_bit_eq_mask add: take_bit_eq_mod)
  then show ?thesis by (simp add: mask_eq_exp_minus_1)
qed

lemma and_ffff_nat: "(n :: nat) AND 0xFFFF = n mod 0x10000"
proof -
  have "n AND mask 16 = n mod 2 ^ 16"
    by (simp flip: take_bit_eq_mask add: take_bit_eq_mod)
  then show ?thesis by (simp add: mask_eq_exp_minus_1)
qed

lemma assemble_bank_switch_rt:
  "assemble ext (make_bank_switch_rt p) =
     Inr ([ opcode ext STA DIR, 0x20,
            opcode ext CMP IMM8, 0x43,
            opcode ext BCS REL_8, 0x06,
            opcode ext ASL NO_ARG,
            opcode ext TAX NO_ARG,
            opcode ext JMP LNG, 0x45, 0xEB, 0xC1,
            opcode ext SEC NO_ARG,
            opcode ext SBC IMM8, 0x43,
            opcode ext ASL NO_ARG,
            opcode ext TAX NO_ARG,
            opcode ext JSR ABS_X_16 ] @ le_bytes (nat (p mod 0x10000)) 2 @
          [ opcode ext JMP LNG, 0x48, 0xEB, 0xC1 ])"
proof -
  have r: "0 \<le> p mod 0x10000" "p mod 0x10000 < 0x10000" by simp_all
  show ?thesis
    using r
    by (simp add: assemble_def make_bank_switch_rt_def max_vanilla_routine_index_def
        and_ffff_int encode_operand_def mode_of_def Let_def numeral_2_eq_2 numeral_3_eq_3)
qed

lemma length_assemble_bank_switch_rt:
  "\<exists>bs. assemble ext (make_bank_switch_rt p) = Inr bs \<and> length bs = 24"
  by (simp add: assemble_bank_switch_rt length_le_bytes)

lemma sequence_to_bytes:
  "sequence_results (map (\<lambda>ptr. int_to_bytes (int ptr) 2) ptrs) =
     (if list_all (\<lambda>ptr. ptr < 0x10000) ptrs then Inr (map (\<lambda>ptr. le_bytes ptr 2) ptrs)
      else Inl OverflowError)"
proof (induction ptrs)
  case Nil
  then show ?case by simp
next
  case (Cons ptr ptrs)
  have "int_to_bytes (int ptr) 2 = (if ptr < 0x10000 then Inr (le_bytes ptr 2) else Inl OverflowError)"
    by (simp add: int_to_bytes_def)
  with Cons show ?case by simp
qed

lemma append_ptrs_eq:
  "ptrs \<noteq> [] \<Longrightarrow>
   append_ptrs ptrs lens =
     ptrs @ map (\<lambda>i. last ptrs + sum_list (take (Suc i) lens)) [0 ..< length lens]"
proof (induction lens arbitrary: ptrs)
  case Nil
  then show ?case by simp
next
  case (Cons len lens)
  have "append_ptrs (ptrs @ [last ptrs + len]) lens =
          (ptrs @ [last ptrs + len]) @
          map (\<lambda>i. last (ptrs @ [last ptrs + len]) + sum_list (take (Suc i) lens)) [0 ..< length lens]"
    by (rule Cons.IH) simp
  also have "\<dots> = ptrs @ (last ptrs + len) #
          map (\<lambda>i. last ptrs + sum_list (take (Suc (Suc i)) (len # lens))) [0 ..< length lens]"
    by (simp add: add.assoc)
  also have "map (\<lambda>i. last ptrs + sum_list (take (Suc (Suc i)) (len # lens))) [0 ..< length lens]
      = map (\<lambda>i. last ptrs + sum_list (take (Suc i) (len # lens))) (map Suc [0 ..< length lens])"
    by (simp add: comp_def)
  finally show ?case
    by (simp add: upt_conv_Cons map_Suc_upt del: upt_Suc)
qed

text \<open>The pointers of the table: entry i is the first pointer plus the lengths before i.\<close>

lemma ptrs_eq:
  assumes "lens \<noteq> []"
  shows "append_ptrs [first_ptr] (butlast lens) =
           map (\<lambda>i. first_ptr + sum_list (take i lens)) [0 ..< length lens]"
proof (rule nth_equalityI)
  show len: "length (append_ptrs [first_ptr] (butlast lens)) =
        length (map (\<lambda>i. first_ptr + sum_list (take i lens)) [0 ..< length lens])"
    using assms by (simp add: append_ptrs_eq)
next
  fix i assume "i < length (append_ptrs [first_ptr] (butlast lens))"
  then have i: "i < length lens" using assms by (simp add: append_ptrs_eq)
  show "append_ptrs [first_ptr] (butlast lens) ! i =
        map (\<lambda>i. first_ptr + sum_list (take i lens)) [0 ..< length lens] ! i"
  proof (cases i)
    case 0
    then show ?thesis using i by (simp add: append_ptrs_eq)
  next
    case (Suc k)
    with i have k: "k < length lens - 1" by simp
    have "take (Suc k) (butlast lens) = take (Suc k) lens"
      using k by (simp add: take_butlast)
    then show ?thesis using i k Suc by (simp add: append_ptrs_eq del: upt_Suc)
  qed
qed

lemma pointer_table_eq:
  assumes "routines \<noteq> []" and "length effect_rts = length routines"
  shows "pointer_table payload_addr routines effect_rts =
     (let ptrs = map (\<lambda>i. (payload_addr + length routines * 2) mod 0x10000
                           + sum_list (take i (map length effect_rts)))
                     [0 ..< length routines]
      in if list_all (\<lambda>ptr. ptr < 0x10000) ptrs
         then Inr (concat (map (\<lambda>ptr. le_bytes ptr 2) ptrs), concat effect_rts)
         else Inl OverflowError)"
proof -
  have "map length effect_rts \<noteq> []" using assms by auto
  from ptrs_eq [OF this] assms show ?thesis
    by (simp add: pointer_table_def Let_def sequence_to_bytes and_ffff_nat del: upt_Suc)
qed

lemma mod_add_small:
  fixes a s :: nat
  assumes "a mod m + s < m"
  shows "a mod m + s = (a + s) mod m"
proof -
  have "(a + s) mod m = (a mod m + s) mod m" by (simp add: mod_add_left_eq)
  also have "\<dots> = a mod m + s" using assms by simp
  finally show ?thesis by simp
qed

lemma sequence_results_length:
  "sequence_results rs = Inr xs \<Longrightarrow> length xs = length rs"
  by (induction rs arbitrary: xs) (auto split: sum.splits)

lemma length_concat_le_bytes:
  "length (concat (map (\<lambda>ptr. le_bytes ptr n) ptrs)) = n * length ptrs"
  by (induction ptrs) (simp_all add: length_le_bytes)

lemma concat_routine_at:
  "i < length xs \<Longrightarrow>
   take (length (xs ! i)) (drop (sum_list (take i (map length xs))) (concat xs @ rest)) = xs ! i"
proof (induction xs arbitrary: i)
  case Nil
  then show ?case by simp
next
  case (Cons x xs)
  show ?case
  proof (cases i)
    case 0
    then show ?thesis by simp
  next
    case (Suc k)
    with Cons.prems have "k < length xs" by simp
    from Cons.IH [OF this] Suc show ?thesis by simp
  qed
qed

lemma assemble_effect_routines_Inr:
  assumes "assemble_effect_routines ext routines = Inr (effect_rts, total_size)"
  shows "length effect_rts = length routines"
    and "total_size = sum_list (map length effect_rts) + 2 * length effect_rts + 24"
proof -
  from assms obtain dummy_b where
    seq: "sequence_results (map (assemble ext) routines) = Inr effect_rts"
    and dummy: "assemble ext (make_bank_switch_rt 0) = Inr dummy_b"
    and total: "total_size = sum_list (map length effect_rts) + 2 * length effect_rts + length dummy_b"
    by (auto simp: assemble_effect_routines_def Let_def split: sum.splits)
  from sequence_results_length [OF seq] show "length effect_rts = length routines" by simp
  from length_assemble_bank_switch_rt [of ext 0] dummy have "length dummy_b = 24" by auto
  with total show "total_size = sum_list (map length effect_rts) + 2 * length effect_rts + 24"
    by simp
qed

text \<open>The outcome of step 4, case by case.\<close>

lemma build_payload_eq:
  assumes "length effect_rts = length routines"
    and "assemble ext (make_bank_switch_rt (int (to_rom_ptr ext payload_addr))) = Inr switch_b"
  shows "build_payload ext payload_addr routines effect_rts total_size =
     (let ptrs = map (\<lambda>i. (payload_addr + length routines * 2) mod 0x10000
                           + sum_list (take i (map length effect_rts)))
                     [0 ..< length routines];
          ptr_b = concat (map (\<lambda>ptr. le_bytes ptr 2) ptrs);
          rt_b = concat effect_rts
      in if \<not> list_all (\<lambda>ptr. ptr < 0x10000) ptrs then Inl OverflowError
         else if length (ptr_b @ rt_b @ switch_b) \<noteq> total_size then Inl (ValueError [])
         else Inr (ptr_b @ rt_b @ switch_b, length rt_b + length ptr_b))"
proof (cases "routines = []")
  case True
  with assms have "effect_rts = []" by simp
  with True assms(2) show ?thesis
    by (simp add: build_payload_def pointer_table_def Let_def)
next
  case False
  show ?thesis
    using pointer_table_eq [OF False assms(1), of payload_addr] assms(2)
    by (simp add: build_payload_def Let_def del: upt_Suc)
qed

text \<open>
  Claim C3. With \<open>R \<ge> 1\<close> new routines, whenever step 4 of \<^verbatim>\<open>expand_effect_mods\<close> yields a
  payload, the payload is the pointer table, then the assembled routines in order, then
  the bank-switch routine. The table is the first \<open>2 * R\<close> bytes; its entry \<open>i\<close> is the
  two-byte little-endian value of
  \<open>(payload_addr + 2 * R + (the lengths of routines 0..i-1)) mod 0x10000\<close>, and that is the
  offset at which routine \<open>i\<close> lies in the payload, added to \<open>payload_addr\<close> and reduced to
  16 bits.
\<close>

theorem pointer_table_layout:
  assumes R: "routines \<noteq> []"
    and len: "length effect_rts = length routines"
    and bp: "build_payload ext payload_addr routines effect_rts total_size
               = Inr (payload, switch_offset)"
  shows "\<exists>switch_b.
      assemble ext (make_bank_switch_rt (int (to_rom_ptr ext payload_addr))) = Inr switch_b
    \<and> payload =
        concat (map (\<lambda>i. le_bytes ((payload_addr + 2 * length routines
                                      + sum_list (take i (map length effect_rts))) mod 0x10000) 2)
                    [0 ..< length routines])
        @ concat effect_rts @ switch_b
    \<and> switch_offset = 2 * length routines + length (concat effect_rts)
    \<and> (\<forall>i < length routines.
          take 2 (drop (2 * i) payload) =
            le_bytes ((payload_addr + 2 * length routines
                       + sum_list (take i (map length effect_rts))) mod 0x10000) 2
        \<and> take (length (effect_rts ! i))
             (drop (2 * length routines + sum_list (take i (map length effect_rts))) payload)
            = effect_rts ! i)"
proof -
  let ?R = "length routines"
  let ?lens = "map length effect_rts"
  let ?first = "(payload_addr + ?R * 2) mod 0x10000"
  let ?ptrs = "map (\<lambda>i. ?first + sum_list (take i ?lens)) [0 ..< ?R]"
  let ?entry = "\<lambda>i. le_bytes ((payload_addr + 2 * ?R + sum_list (take i ?lens)) mod 0x10000) 2"
  from length_assemble_bank_switch_rt obtain switch_b where
    sw: "assemble ext (make_bank_switch_rt (int (to_rom_ptr ext payload_addr))) = Inr switch_b"
    by blast
  from bp build_payload_eq [OF len sw, of total_size]
  have small: "list_all (\<lambda>ptr. ptr < 0x10000) ?ptrs"
    and payload: "payload = concat (map (\<lambda>ptr. le_bytes ptr 2) ?ptrs) @ concat effect_rts @ switch_b"
    and off: "switch_offset = length (concat effect_rts)
                + length (concat (map (\<lambda>ptr. le_bytes ptr 2) ?ptrs))"
    by (auto simp: Let_def split: if_splits simp del: upt_Suc)
  have ptr_i: "?first + sum_list (take i ?lens)
                 = (payload_addr + 2 * ?R + sum_list (take i ?lens)) mod 0x10000"
    if "i < ?R" for i
  proof -
    from small that have "?first + sum_list (take i ?lens) < 0x10000"
      by (simp add: list_all_iff del: upt_Suc)
    from mod_add_small [OF this] show ?thesis by (simp add: mult.commute)
  qed
  have table: "map (\<lambda>ptr. le_bytes ptr 2) ?ptrs = map ?entry [0 ..< ?R]"
    unfolding map_map comp_def by (rule map_cong [OF refl]) (simp add: ptr_i)
  have payload': "payload = concat (map ?entry [0 ..< ?R]) @ concat effect_rts @ switch_b"
    by (simp only: payload table)
  have table_len: "length (concat (map ?entry [0 ..< ?R])) = 2 * ?R"
    by (simp add: length_concat sum_list_triv length_le_bytes comp_def del: upt_Suc)
  have off': "switch_offset = 2 * ?R + length (concat effect_rts)"
  proof -
    have "switch_offset = length (concat effect_rts) + 2 * ?R"
      by (simp only: off table table_len)
    then show ?thesis by simp
  qed
  have entries: "take 2 (drop (2 * i) payload) = ?entry i
      \<and> take (length (effect_rts ! i)) (drop (2 * ?R + sum_list (take i ?lens)) payload)
          = effect_rts ! i"
    if i: "i < ?R" for i
  proof
    have blocks: "\<forall>x \<in> set (map ?entry [0 ..< ?R]). length x = 2"
      by (auto simp: length_le_bytes)
    have "take 2 (drop (i * 2) (concat (map ?entry [0 ..< ?R]))) = map ?entry [0 ..< ?R] ! i"
      by (rule concat_block [OF blocks]) (use i in simp)
    moreover have "i * 2 + 2 \<le> length (concat (map ?entry [0 ..< ?R]))"
      using i table_len by simp
    ultimately show "take 2 (drop (2 * i) payload) = ?entry i"
      using i by (simp add: payload' mult.commute del: upt_Suc)
  next
    have "drop (2 * ?R + sum_list (take i ?lens)) payload
            = drop (sum_list (take i ?lens)) (concat effect_rts @ switch_b)"
      using table_len by (simp add: payload' del: upt_Suc)
    then show "take (length (effect_rts ! i)) (drop (2 * ?R + sum_list (take i ?lens)) payload)
          = effect_rts ! i"
      using concat_routine_at [of i effect_rts switch_b] i len by simp
  qed
  from sw payload' off' entries show ?thesis by blast
qed

text \<open>
  Claim C4. For every \<open>p\<close> the bank-switch routine assembles, to as many bytes as the dummy
  routine \<^verbatim>\<open>make_bank_switch_rt(0)\<close>; the length of any assembled routine is the sum of the
  lengths of its items, which depend on the addressing mode alone. Hence, with the
  \<^verbatim>\<open>total_size\<close> that \<^verbatim>\<open>expand_effect_mods\<close> computes, step 4 either stops with the
  \<^verbatim>\<open>OverflowError\<close> of \<^verbatim>\<open>int.to_bytes\<close> or builds a payload of exactly \<^verbatim>\<open>total_size\<close> bytes:
  the \<^verbatim>\<open>ValueError\<close> of the length check is never raised.
\<close>

theorem payload_length_always_total_size:
  "(\<exists>bs bs0. assemble ext (make_bank_switch_rt p) = Inr bs
       \<and> assemble ext (make_bank_switch_rt 0) = Inr bs0 \<and> length bs = length bs0)
   \<and> (\<forall>rt bs. assemble ext rt = Inr bs \<longrightarrow> length bs = sum_list (map item_len rt))
   \<and> (\<forall>routines effect_rts total_size payload_addr.
         assemble_effect_routines ext routines = Inr (effect_rts, total_size) \<longrightarrow>
           build_payload ext payload_addr routines effect_rts total_size = Inl OverflowError
         \<or> (\<exists>payload switch_offset.
               build_payload ext payload_addr routines effect_rts total_size
                 = Inr (payload, switch_offset)
             \<and> length payload = total_size))"
proof (intro conjI allI impI)
  from length_assemble_bank_switch_rt [of ext p] length_assemble_bank_switch_rt [of ext 0]
  show "\<exists>bs bs0. assemble ext (make_bank_switch_rt p) = Inr bs
       \<and> assemble ext (make_bank_switch_rt 0) = Inr bs0 \<and> length bs = length bs0"
    by auto
next
  fix rt bs assume "assemble ext rt = Inr bs"
  then show "length bs = sum_list (map item_len rt)" by (rule length_assemble)
next
  fix routines effect_rts total_size payload_addr
  assume a: "assemble_effect_routines ext routines = Inr (effect_rts, total_size)"
  note len = assemble_effect_routines_Inr(1) [OF a]
  note total = assemble_effect_routines_Inr(2) [OF a]
  from length_assemble_bank_switch_rt obtain switch_b where
    sw: "assemble ext (make_bank_switch_rt (int (to_rom_ptr ext payload_addr))) = Inr switch_b"
    and sw_len: "length switch_b = 24"
    by blast
  let ?ptrs = "map (\<lambda>i. (payload_addr + length routines * 2) mod 0x10000
                           + sum_list (take i (map length effect_rts))) [0 ..< length routines]"
  have "length (concat (map (\<lambda>ptr. le_bytes ptr 2) ?ptrs) @ concat effect_rts @ switch_b)
          = total_size"
    using len
    by (simp add: total sw_len length_concat comp_def length_le_bytes sum_list_triv
        del: upt_Suc)
  then show "build_payload ext payload_addr routines effect_rts total_size = Inl OverflowError
         \<or> (\<exists>payload switch_offset.
               build_payload ext payload_addr routines effect_rts total_size
                 = Inr (payload, switch_offset)
             \<and> length payload = total_size)"
    by (simp add: build_payload_eq [OF len sw] Let_def del: upt_Suc)
qed

lemma assemble_venus_bow_rt:
  "\<exists>bs. assemble ext get_venus_bow_rt = Inr bs \<and> length bs = 7"
  by (simp add: assemble_def get_venus_bow_rt_def current_damage_offset_def
      encode_operand_def mode_of_def Let_def length_le_bytes)

lemma assemble_spellslinger_rt:
  "\<exists>bs. assemble ext get_spellslinger_rt = Inr bs \<and> length bs = 55"
  by (simp add: assemble_def get_spellslinger_rt_def current_damage_offset_def
      current_attacker_offset_def encode_operand_def mode_of_def Let_def length_le_bytes)

lemma assemble_new_effect_routines:
  "\<exists>vb sb. assemble_effect_routines ext [get_venus_bow_rt, get_spellslinger_rt]
             = Inr ([vb, sb], 90)
     \<and> length vb = 7 \<and> length sb = 55"
proof -
  from assemble_venus_bow_rt obtain vb where
    vb: "assemble ext get_venus_bow_rt = Inr vb" "length vb = 7" by blast
  from assemble_spellslinger_rt obtain sb where
    sb: "assemble ext get_spellslinger_rt = Inr sb" "length sb = 55" by blast
  from length_assemble_bank_switch_rt obtain db where
    db: "assemble ext (make_bank_switch_rt 0) = Inr db" "length db = 24" by blast
  have "assemble_effect_routines ext [get_venus_bow_rt, get_spellslinger_rt] = Inr ([vb, sb], 90)"
    by (simp add: assemble_effect_routines_def vb sb db Let_def)
  with vb(2) sb(2) show ?thesis by blast
qed

lemma example_build_payload:
  assumes "length vb = 7" and "length sb = 55"
  shows "\<exists>payload. build_payload example_ext 0x4100BD [get_venus_bow_rt, get_spellslinger_rt]
                      [vb, sb] 90 = Inr (payload, 66)"
proof -
  from length_assemble_bank_switch_rt obtain switch_b where
    sw: "assemble example_ext (make_bank_switch_rt (int (to_rom_ptr example_ext 0x4100BD)))
           = Inr switch_b"
    and sw_len: "length switch_b = 24"
    by blast
  have len: "length [vb, sb] = length [get_venus_bow_rt, get_spellslinger_rt]" by simp
  show ?thesis
    unfolding build_payload_eq [OF len sw]
    by (simp add: assms sw_len Let_def upt_rec_numeral length_le_bytes)
qed

theorem payload_length_always_total_size_witness:
  "\<exists>effect_rts payload switch_offset.
      assemble_effect_routines example_ext [get_venus_bow_rt, get_spellslinger_rt]
        = Inr (effect_rts, 90)
    \<and> build_payload example_ext 0x4100BD [get_venus_bow_rt, get_spellslinger_rt] effect_rts 90
        = Inr (payload, switch_offset)
    \<and> length payload = 90"
proof -
  from assemble_new_effect_routines obtain vb sb where
    a: "assemble_effect_routines example_ext [get_venus_bow_rt, get_spellslinger_rt]
          = Inr ([vb, sb], 90)"
    and lens: "length vb = 7" "length sb = 55"
    by blast
  from example_build_payload [OF lens] obtain payload where
    b: "build_payload example_ext 0x4100BD [get_venus_bow_rt, get_spellslinger_rt] [vb, sb] 90
          = Inr (payload, 66)"
    by blast
  from payload_length_always_total_size [of example_ext 0] a
  have "build_payload example_ext 0x4100BD [get_venus_bow_rt, get_spellslinger_rt] [vb, sb] 90
          = Inl OverflowError
      \<or> (\<exists>payload switch_offset.
            build_payload example_ext 0x4100BD [get_venus_bow_rt, get_spellslinger_rt] [vb, sb] 90
              = Inr (payload, switch_offset)
          \<and> length payload = 90)"
    by blast
  with b have "length payload = 90" by simp
  with a b show ?thesis by blast
qed

theorem pointer_table_layout_witness:
  "\<exists>vb sb payload.
      length [vb, sb] = length [get_venus_bow_rt, get_spellslinger_rt]
    \<and> build_payload example_ext 0x4100BD [get_venus_bow_rt, get_spellslinger_rt] [vb, sb] 90
        = Inr (payload, 66)
    \<and> take 2 (drop (2 * 0) payload) = [0xC1, 0x00]
    \<and> take 2 (drop (2 * 1) payload) = [0xC8, 0x00]
    \<and> take (length vb) (drop (2 * 2 + 0) payload) = vb
    \<and> take (length sb) (drop (2 * 2 + 7) payload) = sb"
proof -
  from assemble_new_effect_routines obtain vb sb :: "byte list" where
    lens: "length vb = 7" "length sb = 55"
    by blast
  from example_build_payload [OF lens] obtain payload where
    b: "build_payload example_ext 0x4100BD [get_venus_bow_rt, get_spellslinger_rt] [vb, sb] 90
          = Inr (payload, 66)"
    by blast
  have R: "[get_venus_bow_rt, get_spellslinger_rt] \<noteq> []" by simp
  have len: "length [vb, sb] = length [get_venus_bow_rt, get_spellslinger_rt]" by simp
  from pointer_table_layout [OF R len b]
  have entries: "\<forall>i < 2.
          take 2 (drop (2 * i) payload) =
            le_bytes ((0x4100BD + 2 * 2 + sum_list (take i (map length [vb, sb]))) mod 0x10000) 2
        \<and> take (length ([vb, sb] ! i))
             (drop (2 * 2 + sum_list (take i (map length [vb, sb]))) payload)
            = [vb, sb] ! i"
    by auto
  have e0: "take 2 (drop (2 * 0) payload) =
            le_bytes ((0x4100BD + 2 * 2 + sum_list (take 0 (map length [vb, sb]))) mod 0x10000) 2
        \<and> take (length ([vb, sb] ! 0))
             (drop (2 * 2 + sum_list (take 0 (map length [vb, sb]))) payload)
            = [vb, sb] ! 0"
    by (rule entries [rule_format]) simp
  have e1: "take 2 (drop (2 * 1) payload) =
            le_bytes ((0x4100BD + 2 * 2 + sum_list (take 1 (map length [vb, sb]))) mod 0x10000) 2
        \<and> take (length ([vb, sb] ! 1))
             (drop (2 * 2 + sum_list (take 1 (map length [vb, sb]))) payload)
            = [vb, sb] ! 1"
    by (rule entries [rule_format]) simp
  from e0 have "take 2 (drop (2 * 0) payload) = [0xC1, 0x00]"
    and "take (length vb) (drop (2 * 2 + 0) payload) = vb"
    by (simp_all add: numeral_2_eq_2)
  moreover from e1 have "take 2 (drop (2 * 1) payload) = [0xC8, 0x00]"
    and "take (length sb) (drop (2 * 2 + 7) payload) = sb"
    by (simp_all add: numeral_2_eq_2 lens)
  ultimately show ?thesis using b len by blast
qed

section \<open>The rewritten references\<close>

lemma int_to_bytes_Inr:
  "int_to_bytes (int v) n = Inr b \<Longrightarrow> b = le_bytes v n \<and> v < 256 ^ n"
  by (auto simp: int_to_bytes_def split: if_splits)

lemma rewrite_references_space_manager:
  "rewrite_references ext r d rom = Inr rom2 \<Longrightarrow> space_manager rom2 = space_manager rom"
proof (induction ext r d rom rule: rewrite_references.induct)
  case (1 ext r rom)
  then show ?case by simp
next
  case (2 ext r addr offset rest rom)
  from "2.prems" obtain b where
    b: "int_to_bytes (int (r + offset)) 3 = Inr b"
    and rest: "rewrite_references ext r rest (CTRom_write ext b NO_MARK (CTRom_seek addr rom)) = Inr rom2"
    by (auto split: sum.splits)
  from "2.IH" [OF b rest] show ?case
    by (simp add: CTRom_write_def CTRom_seek_def)
qed

lemma rewrite_references_outside:
  "rewrite_references ext r d rom = Inr rom2 \<Longrightarrow>
   \<not> list_ex (\<lambda>(addr, offset). addr \<le> x \<and> x < addr + 3) d \<Longrightarrow>
   rom_data rom2 x = rom_data rom x"
proof (induction ext r d rom rule: rewrite_references.induct)
  case (1 ext r rom)
  then show ?case by simp
next
  case (2 ext r addr offset rest rom)
  from "2.prems"(1) obtain b where
    b: "int_to_bytes (int (r + offset)) 3 = Inr b"
    and rest: "rewrite_references ext r rest (CTRom_write ext b NO_MARK (CTRom_seek addr rom)) = Inr rom2"
    by (auto split: sum.splits)
  from int_to_bytes_Inr [OF b] have lb: "length b = 3" by (simp add: length_le_bytes)
  from "2.prems"(2) have out: "x < addr \<or> addr + length b \<le> x"
    and nrest: "\<not> list_ex (\<lambda>(addr, offset). addr \<le> x \<and> x < addr + 3) rest"
    using lb by auto
  from "2.IH" [OF b rest nrest]
  have "rom_data rom2 x = rom_data (CTRom_write ext b NO_MARK (CTRom_seek addr rom)) x" .
  also have "\<dots> = rom_data rom x"
    using out by (simp add: CTRom_write_def CTRom_seek_def write_bytes_outside)
  finally show ?case .
qed

lemma rewrite_references_site:
  "rewrite_references ext r d rom = Inr rom2 \<Longrightarrow>
   sorted_wrt (\<lambda>p q. fst p + 3 \<le> fst q \<or> fst q + 3 \<le> fst p) d \<Longrightarrow>
   (addr, offset) \<in> set d \<Longrightarrow>
   read_at rom2 addr 3 = le_bytes (r + offset) 3 \<and> r + offset < 256 ^ 3"
proof (induction ext r d rom rule: rewrite_references.induct)
  case (1 ext r rom)
  then show ?case by simp
next
  case (2 ext r addr0 offset0 rest rom)
  let ?rom1 = "\<lambda>b. CTRom_write ext b NO_MARK (CTRom_seek addr0 rom)"
  from "2.prems"(1) obtain b where
    b: "int_to_bytes (int (r + offset0)) 3 = Inr b"
    and rest: "rewrite_references ext r rest (?rom1 b) = Inr rom2"
    by (auto split: sum.splits)
  from int_to_bytes_Inr [OF b] have bv: "b = le_bytes (r + offset0) 3" "r + offset0 < 256 ^ 3"
    by simp_all
  then have lb: "length b = 3" by (simp add: length_le_bytes)
  from "2.prems"(2) have disj: "\<forall>q \<in> set rest. addr0 + 3 \<le> fst q \<or> fst q + 3 \<le> addr0"
    and srest: "sorted_wrt (\<lambda>p q. fst p + 3 \<le> fst q \<or> fst q + 3 \<le> fst p) rest"
    by simp_all
  show ?case
  proof (cases "(addr, offset) \<in> set rest")
    case True
    from "2.IH" [OF b rest srest True] show ?thesis .
  next
    case False
    with "2.prems"(3) have eq: "addr = addr0" "offset = offset0" by simp_all
    have byte: "rom_data rom2 (addr0 + i) = b ! i" if i: "i < 3" for i
    proof -
      have "\<not> list_ex (\<lambda>(a, off). a \<le> addr0 + i \<and> addr0 + i < a + 3) rest"
        using disj i by (fastforce simp: list_ex_iff)
      from rewrite_references_outside [OF rest this]
      have "rom_data rom2 (addr0 + i) = rom_data (?rom1 b) (addr0 + i)" .
      also have "\<dots> = b ! i"
        using i lb by (simp add: CTRom_write_def CTRom_seek_def write_bytes_inside)
      finally show ?thesis .
    qed
    have "read_at rom2 addr0 3 = b"
    proof (rule nth_equalityI)
      show "length (read_at rom2 addr0 3) = length b" by (simp add: read_at_def lb)
    next
      fix i assume "i < length (read_at rom2 addr0 3)"
      then have "i < 3" by (simp add: read_at_def)
      then show "read_at rom2 addr0 3 ! i = b ! i"
        using byte by (simp add: read_at_def)
    qed
    with bv eq show ?thesis by simp
  qed
qed

lemma addr_offset_dict_disjoint:
  "sorted_wrt (\<lambda>p q. fst p + 3 \<le> fst q \<or> fst q + 3 \<le> fst p) addr_offset_dict"
  by (simp add: addr_offset_dict_def)

lemma CTRom_write_protected:
  assumes "\<And>x. P x \<Longrightarrow> x < p \<or> p + length bs \<le> x" and "P x"
  shows "rom_data (CTRom_write ext bs wt (CTRom_seek p rom)) x = rom_data rom x"
  using assms(1) [OF assms(2)]
  by (simp add: CTRom_write_def CTRom_seek_def write_bytes_outside)

lemma length_assemble_long_jump:
  "assemble ext [inst JMP v LNG] = Inr b \<Longrightarrow> length b = 4"
  by (drule length_assemble) (simp add: mode_of_def)

lemma apply_jmp_patch_protected:
  assumes run: "apply_jmp_patch ext rt hook rom hint = Inr rom'"
    and alloc: "\<And>sm n h a sm' x. get_free_addr ext sm n h = Inr (a, sm') \<Longrightarrow> P x
                  \<Longrightarrow> x < a \<or> a + n \<le> x"
    and hook: "\<And>x. P x \<Longrightarrow> x < hook \<or> hook + 4 \<le> x"
    and x: "P x"
  shows "rom_data rom' x = rom_data rom x"
proof -
  from run obtain patch_b addr sm hook_b where
    a: "get_free_addr ext (space_manager rom) (length patch_b) hint = Inr (addr, sm)"
    and h: "assemble ext [inst JMP (int (to_rom_ptr ext addr)) LNG] = Inr hook_b"
    and rom': "rom' = CTRom_write ext hook_b NO_MARK (CTRom_seek hook
                 (CTRom_write ext patch_b MARK_USED
                   (CTRom_seek addr (rom \<lparr> space_manager := sm \<rparr>))))"
    by (auto simp: apply_jmp_patch_def Let_def split: sum.splits)
  have lh: "length hook_b = 4" by (rule length_assemble_long_jump [OF h])
  have "rom_data rom' x = rom_data (CTRom_write ext patch_b MARK_USED
                   (CTRom_seek addr (rom \<lparr> space_manager := sm \<rparr>))) x"
    unfolding rom' by (rule CTRom_write_protected [where P = P]) (use hook lh x in auto)
  also have "\<dots> = rom_data (rom \<lparr> space_manager := sm \<rparr>) x"
    by (rule CTRom_write_protected [where P = P]) (use alloc [OF a] x in auto)
  finally show ?thesis by simp
qed

lemma patch_hooks_protected:
  assumes alloc: "\<And>sm n h a sm' x. get_free_addr ext sm n h = Inr (a, sm') \<Longrightarrow> P x
                  \<Longrightarrow> x < a \<or> a + n \<le> x"
    and x: "P x"
  shows "patch_hooks ext s pairs rom = Inr rom' \<Longrightarrow>
    (\<And>h x. h \<in> fst ` set pairs \<Longrightarrow> P x \<Longrightarrow> x < to_file_ptr ext h \<or> to_file_ptr ext h + 4 \<le> x) \<Longrightarrow>
    rom_data rom' x = rom_data rom x"
proof (induction pairs arbitrary: rom)
  case Nil
  then show ?case by simp
next
  case (Cons pair rest)
  obtain rom_hook pc_id where pair: "pair = (rom_hook, pc_id)" by (cases pair)
  from Cons.prems(1) obtain rom1 where
    p: "apply_jmp_patch ext (make_effect_rt s (int pc_id) (int rom_hook))
          (to_file_ptr ext rom_hook) rom None = Inr rom1"
    and rest: "patch_hooks ext s rest rom1 = Inr rom'"
    by (auto simp: pair Let_def split: sum.splits)
  have hook_here: "x < to_file_ptr ext rom_hook \<or> to_file_ptr ext rom_hook + 4 \<le> x" if "P x" for x
    by (rule Cons.prems(2) [OF _ that]) (simp add: pair)
  have hook_rest: "x < to_file_ptr ext h \<or> to_file_ptr ext h + 4 \<le> x"
    if "h \<in> fst ` set rest" "P x" for h x
    by (rule Cons.prems(2) [OF _ that(2)]) (use that(1) in simp)
  have "rom_data rom' x = rom_data rom1 x"
    by (rule Cons.IH [OF rest hook_rest])
  also have "\<dots> = rom_data rom x"
    by (rule apply_jmp_patch_protected [OF p, where P = P]) (use alloc hook_here x in blast)+
  finally show ?case .
qed

lemma install_effect_routines_protected:
  assumes run: "install_effect_routines ext rts rom = Inr rom'"
    and alloc: "\<And>sm n h a sm' x. get_free_addr ext sm n h = Inr (a, sm') \<Longrightarrow> P x
                  \<Longrightarrow> x < a \<or> a + n \<le> x"
    and hook: "\<And>x. P x \<Longrightarrow> x < hook_addr \<or> hook_addr + 4 \<le> x"
    and x: "P x"
  shows "rom_data rom' x = rom_data rom x"
proof -
  from run obtain effect_rts total_size payload_addr sm payload switch_offset hook_b where
    a: "get_free_addr ext (space_manager rom) total_size (Some 0x410000) = Inr (payload_addr, sm)"
    and b: "build_payload ext payload_addr rts effect_rts total_size = Inr (payload, switch_offset)"
    and h: "assemble ext [inst JMP (int (to_rom_ptr ext (to_rom_ptr ext (payload_addr + switch_offset)))) LNG]
              = Inr hook_b"
    and rom': "rom' = CTRom_write ext hook_b NO_MARK (CTRom_seek hook_addr
                 (CTRom_write ext payload MARK_USED
                   (CTRom_seek payload_addr (rom \<lparr> space_manager := sm \<rparr>))))"
    by (auto simp: install_effect_routines_def Let_def split: sum.splits)
  from b have lp: "length payload = total_size"
    by (auto simp: build_payload_def Let_def split: sum.splits if_splits)
  have lh: "length hook_b = 4" by (rule length_assemble_long_jump [OF h])
  have "rom_data rom' x = rom_data (CTRom_write ext payload MARK_USED
                   (CTRom_seek payload_addr (rom \<lparr> space_manager := sm \<rparr>))) x"
    unfolding rom' by (rule CTRom_write_protected [where P = P]) (use hook lh x in auto)
  also have "\<dots> = rom_data (rom \<lparr> space_manager := sm \<rparr>) x"
    by (rule CTRom_write_protected [where P = P]) (use alloc [OF a] lp x in auto)
  finally show ?thesis by simp
qed

lemma hook_addr_not_reference:
  "is_reference_byte x \<Longrightarrow> x < hook_addr \<or> hook_addr + 4 \<le> x"
  by (auto simp: is_reference_byte_def addr_offset_dict_def hook_addr_def)

lemma reference_site_bytes:
  "(addr, offset) \<in> set addr_offset_dict \<Longrightarrow> i < 3 \<Longrightarrow> is_reference_byte (addr + i)"
  by (auto simp: is_reference_byte_def list_ex_iff intro!: bexI [of _ "(addr, offset)"])

lemma read_at_cong:
  assumes "\<And>i. i < n \<Longrightarrow> rom_data r1 (a + i) = rom_data r2 (a + i)"
  shows "read_at r1 a n = read_at r2 a n"
  unfolding read_at_def
proof (rule map_cong [OF refl])
  fix x assume "x \<in> set [a ..< a + n]"
  then have "x - a < n" and "a + (x - a) = x" by auto
  with assms [of "x - a"] show "rom_data r1 x = rom_data r2 x" by simp
qed

text \<open>
  Claim C5. Suppose \<^verbatim>\<open>expand_effect_mods\<close> returns, the allocator never hands out a byte
  of the nine reference sites, and none of the seven hook sites of the two later patches
  overlaps a reference site. Then the rewriting loop changes no byte outside the nine
  sites and leaves at each site \<open>addr\<close> the three-byte little-endian encoding of
  \<^verbatim>\<open>to_rom_ptr(new_eff_start) + offset\<close>, with \<open>offset\<close> its value in \<^verbatim>\<open>addr_offset_dict\<close>; and
  the image that \<^verbatim>\<open>expand_effect_mods\<close> returns still holds that encoding at each site.
\<close>

theorem references_rewritten:
  assumes run: "expand_effect_mods ext ct_rom = Inr rom'"
    and alloc: "\<forall>sm n h a sm' x. get_free_addr ext sm n h = Inr (a, sm') \<and> is_reference_byte x
                  \<longrightarrow> x < a \<or> a + n \<le> x"
    and hooks: "\<forall>h x. h \<in> set (map fst hook_pc_pairs @ [sunshades_hook_rom_addr])
                    \<and> is_reference_byte x
                  \<longrightarrow> x < to_file_ptr ext h \<or> to_file_ptr ext h + 4 \<le> x"
  shows "\<exists>new_eff_start sm rts rom1 rom2.
        get_free_addr ext (space_manager ct_rom) ((0x39 + 6) * 3) (Some 0x410000)
          = Inr (new_eff_start, sm)
      \<and> write_effect_table ext ct_rom = Inr (new_eff_start, rts, rom1)
      \<and> rewrite_references ext (to_rom_ptr ext new_eff_start) addr_offset_dict rom1 = Inr rom2
      \<and> (\<forall>x. \<not> is_reference_byte x \<longrightarrow> rom_data rom2 x = rom_data rom1 x)
      \<and> (\<forall>(addr, offset) \<in> set addr_offset_dict.
            to_rom_ptr ext new_eff_start + offset < 2 ^ 24
          \<and> read_at rom2 addr 3 = le_bytes (to_rom_ptr ext new_eff_start + offset) 3
          \<and> read_at rom' addr 3 = le_bytes (to_rom_ptr ext new_eff_start + offset) 3)"
proof -
  from run obtain new_eff_start rts rom1 rom2 rom3 rom4 where
    w: "write_effect_table ext ct_rom = Inr (new_eff_start, rts, rom1)"
    and rr: "rewrite_references ext (to_rom_ptr ext new_eff_start) addr_offset_dict rom1 = Inr rom2"
    and ins: "install_effect_routines ext rts rom2 = Inr rom3"
    and armor: "patch_additional_armor_effects ext rom3 new_eff_start = Inr rom4"
    and sun: "add_independent_sunshades_effect ext rom4 = Inr rom'"
    by (auto simp: expand_effect_mods_def Let_def split: sum.splits)
  from w obtain sm where
    a: "get_free_addr ext (space_manager ct_rom) ((0x39 + 6) * 3) (Some 0x410000)
          = Inr (new_eff_start, sm)"
    by (auto simp: write_effect_table_eq split: sum.splits)
  have alloc': "x < a \<or> a + n \<le> x"
    if "get_free_addr ext sm n h = Inr (a, sm')" "is_reference_byte x" for sm n h a sm' x
    using alloc that by blast
  have hooks': "x < to_file_ptr ext h \<or> to_file_ptr ext h + 4 \<le> x"
    if "h \<in> set (map fst hook_pc_pairs @ [sunshades_hook_rom_addr])" "is_reference_byte x" for h x
    using hooks that by blast
  have outside: "\<forall>x. \<not> is_reference_byte x \<longrightarrow> rom_data rom2 x = rom_data rom1 x"
    using rewrite_references_outside [OF rr] by (simp add: is_reference_byte_def)
  have kept: "rom_data rom' x = rom_data rom2 x" if x: "is_reference_byte x" for x
  proof -
    have "rom_data rom' x = rom_data rom4 x"
      using sun unfolding add_independent_sunshades_effect_def Let_def
      by (rule apply_jmp_patch_protected [where P = is_reference_byte])
         (use alloc' hooks' x in auto)
    also have "\<dots> = rom_data rom3 x"
      using armor unfolding patch_additional_armor_effects_def Let_def
      by (rule patch_hooks_protected [where P = is_reference_byte, rotated 2])
         (use alloc' hooks' x in auto)
    also have "\<dots> = rom_data rom2 x"
      by (rule install_effect_routines_protected [OF ins, where P = is_reference_byte])
         (use alloc' hook_addr_not_reference x in auto)
    finally show ?thesis .
  qed
  have sites: "to_rom_ptr ext new_eff_start + offset < 2 ^ 24
          \<and> read_at rom2 addr 3 = le_bytes (to_rom_ptr ext new_eff_start + offset) 3
          \<and> read_at rom' addr 3 = le_bytes (to_rom_ptr ext new_eff_start + offset) 3"
    if site: "(addr, offset) \<in> set addr_offset_dict" for addr offset
  proof -
    from rewrite_references_site [OF rr addr_offset_dict_disjoint site]
    have r2: "read_at rom2 addr 3 = le_bytes (to_rom_ptr ext new_eff_start + offset) 3"
      and small: "to_rom_ptr ext new_eff_start + offset < 2 ^ 24"
      by simp_all
    have "read_at rom' addr 3 = read_at rom2 addr 3"
      by (rule read_at_cong) (rule kept, rule reference_site_bytes [OF site])
    with r2 small show ?thesis by simp
  qed
  from a w rr outside sites show ?thesis by blast
qed

lemma example_write_effect_table_sm:
  "\<exists>rom1. write_effect_table example_ext example_rom =
     Inr (0x410000, [get_venus_bow_rt, get_spellslinger_rt], rom1)
     \<and> space_manager rom1 = 0x4100BD"
proof -
  have "get_free_addr example_ext (space_manager example_rom) ((0x39 + 6) * 3) (Some 0x410000)
          = Inr (0x410000, 0x4100BD)"
    by (simp add: example_ext_def example_rom_def)
  moreover have "mark_used example_ext = (\<lambda>sm start len. sm)"
    by (simp add: example_ext_def)
  ultimately show ?thesis
    by (simp add: write_effect_table_eq CTRom_write_def CTRom_seek_def
        del: upt_Suc concat_append map_append length_append)
qed

lemma rewrite_references_succeeds:
  "r + 2 < 2 ^ 24 \<Longrightarrow> \<exists>rom2. rewrite_references ext r addr_offset_dict rom = Inr rom2"
  by (simp add: addr_offset_dict_def int_to_bytes_def)

lemma assemble_long_jump:
  "v < 2 ^ 24 \<Longrightarrow> \<exists>b. assemble ext [inst JMP (int v) LNG] = Inr b"
  by (simp add: assemble_def encode_operand_def mode_of_def Let_def)

lemma example_install_effect_routines:
  assumes "space_manager rom = 0x4100BD"
  shows "\<exists>rom3. install_effect_routines example_ext [get_venus_bow_rt, get_spellslinger_rt] rom
                  = Inr rom3
           \<and> space_manager rom3 = 0x410117"
proof -
  from assemble_new_effect_routines obtain vb sb where
    a: "assemble_effect_routines example_ext [get_venus_bow_rt, get_spellslinger_rt]
          = Inr ([vb, sb], 90)"
    and lens: "length vb = 7" "length sb = 55"
    by blast
  from example_build_payload [OF lens] obtain payload where
    b: "build_payload example_ext 0x4100BD [get_venus_bow_rt, get_spellslinger_rt] [vb, sb] 90
          = Inr (payload, 66)"
    by blast
  have g: "get_free_addr example_ext (space_manager rom) 90 (Some 0x410000)
             = Inr (0x4100BD, 0x410117)"
    by (simp add: example_ext_def assms)
  have t: "to_rom_ptr example_ext (to_rom_ptr example_ext 0x4100FF) = 0x4100FF"
    by (simp add: example_ext_def)
  from assemble_long_jump [of "0x4100FF" example_ext] obtain hook_b where
    h: "assemble example_ext [inst JMP (int 0x4100FF) LNG] = Inr hook_b"
    by auto
  have m: "mark_used example_ext = (\<lambda>sm start len. sm)"
    by (simp add: example_ext_def)
  show ?thesis
    using h
    by (simp add: install_effect_routines_def a g b t m Let_def CTRom_write_def CTRom_seek_def)
qed

lemma assemble_make_effect_rt:
  assumes "0 \<le> s" "s + 1 < 2 ^ 24" "0 \<le> b" "b \<le> 2" "0 \<le> h" "h + 15 < 2 ^ 24"
  shows "\<exists>bs. assemble ext (make_effect_rt s b h) = Inr bs \<and> length bs = 72"
  using assms
  by (simp add: assemble_def make_effect_rt_def crown_offset_def
      encode_operand_def mode_of_def Let_def length_le_bytes)

lemma assemble_sunshades_rt:
  "\<exists>bs. assemble ext sunshades_rt = Inr bs \<and> length bs = 43"
  by (simp add: assemble_def sunshades_rt_def sunshades_return_rom_addr_def crown_offset_def
      crown_bit_def encode_operand_def mode_of_def Let_def length_le_bytes)

lemma example_apply_jmp_patch:
  assumes "assemble example_ext rt = Inr bs" and "space_manager rom = m"
    and "0x410000 \<le> m" and "m < 2 ^ 24"
  shows "\<exists>rom'. apply_jmp_patch example_ext rt hook rom hint = Inr rom'
           \<and> space_manager rom' = m + length bs"
proof -
  have g: "get_free_addr example_ext (space_manager rom) (length bs) hint
             = Inr (m, m + length bs)"
    using assms by (simp add: example_ext_def max_def)
  have t: "to_rom_ptr example_ext m = m"
    using assms by (simp add: example_ext_def)
  from assemble_long_jump [OF assms(4), of example_ext] obtain hook_b where
    h: "assemble example_ext [inst JMP (int m) LNG] = Inr hook_b"
    by auto
  have mu: "mark_used example_ext = (\<lambda>sm start len. sm)"
    by (simp add: example_ext_def)
  show ?thesis
    by (simp add: apply_jmp_patch_def assms(1) g t h mu Let_def CTRom_write_def CTRom_seek_def)
qed

lemma example_patch_hooks:
  assumes s: "0 \<le> s" "s + 1 < 2 ^ 24"
  shows "list_all (\<lambda>(h, pc). pc \<le> 2 \<and> h + 15 < 2 ^ 24) pairs \<Longrightarrow>
    space_manager rom = m \<Longrightarrow> 0x410000 \<le> m \<Longrightarrow> m + 72 * length pairs < 2 ^ 24 \<Longrightarrow>
    \<exists>rom'. patch_hooks example_ext s pairs rom = Inr rom'
       \<and> space_manager rom' = m + 72 * length pairs"
proof (induction pairs arbitrary: rom m)
  case Nil
  then show ?case by simp
next
  case (Cons pair rest)
  obtain rom_hook pc_id where pair: "pair = (rom_hook, pc_id)" by (cases pair)
  from Cons.prems(1) have pc: "pc_id \<le> 2" and hk: "rom_hook + 15 < 2 ^ 24"
    and rest: "list_all (\<lambda>(h, pc). pc \<le> 2 \<and> h + 15 < 2 ^ 24) rest"
    by (simp_all add: pair)
  have "\<exists>bs. assemble example_ext (make_effect_rt s (int pc_id) (int rom_hook)) = Inr bs
          \<and> length bs = 72"
    by (rule assemble_make_effect_rt) (use s pc hk in simp_all)
  then obtain bs where bs: "assemble example_ext (make_effect_rt s (int pc_id) (int rom_hook)) = Inr bs"
    and lbs: "length bs = 72" by blast
  from Cons.prems have m: "0x410000 \<le> m" "m < 2 ^ 24" by simp_all
  from example_apply_jmp_patch [OF bs Cons.prems(2) m] obtain rom1 where
    p: "apply_jmp_patch example_ext (make_effect_rt s (int pc_id) (int rom_hook))
          (to_file_ptr example_ext rom_hook) rom None = Inr rom1"
    and sm1: "space_manager rom1 = m + 72"
    using lbs by auto
  have "\<exists>rom'. patch_hooks example_ext s rest rom1 = Inr rom'
       \<and> space_manager rom' = (m + 72) + 72 * length rest"
    by (rule Cons.IH [OF rest sm1]) (use Cons.prems in simp_all)
  then show ?case using p by (auto simp: pair Let_def)
qed

lemma example_expand_effect_mods:
  "\<exists>rom'. expand_effect_mods example_ext example_rom = Inr rom'"
proof -
  from example_write_effect_table_sm obtain rom1 where
    w: "write_effect_table example_ext example_rom =
          Inr (0x410000, [get_venus_bow_rt, get_spellslinger_rt], rom1)"
    and sm1: "space_manager rom1 = 0x4100BD"
    by blast
  have t: "to_rom_ptr example_ext 0x410000 = 0x410000" by (simp add: example_ext_def)
  from rewrite_references_succeeds [of "0x410000" example_ext rom1] obtain rom2 where
    rr: "rewrite_references example_ext 0x410000 addr_offset_dict rom1 = Inr rom2"
    by auto
  from rewrite_references_space_manager [OF rr] sm1 have sm2: "space_manager rom2 = 0x4100BD"
    by simp
  from example_install_effect_routines [OF sm2] obtain rom3 where
    ins: "install_effect_routines example_ext [get_venus_bow_rt, get_spellslinger_rt] rom2
            = Inr rom3"
    and sm3: "space_manager rom3 = 0x410117"
    by blast
  have "\<exists>rom4. patch_hooks example_ext 0x410000 hook_pc_pairs rom3 = Inr rom4
          \<and> space_manager rom4 = 0x410117 + 72 * length hook_pc_pairs"
    by (rule example_patch_hooks [OF _ _ _ sm3]) (simp_all add: hook_pc_pairs_def)
  then obtain rom4 where
    armor: "patch_additional_armor_effects example_ext rom3 0x410000 = Inr rom4"
    and sm4: "space_manager rom4 = 0x4102C7"
    by (auto simp: patch_additional_armor_effects_def t hook_pc_pairs_def)
  from assemble_sunshades_rt obtain sb where
    sb: "assemble example_ext sunshades_rt = Inr sb" by blast
  from example_apply_jmp_patch [OF sb sm4] obtain rom' where
    "add_independent_sunshades_effect example_ext rom4 = Inr rom'"
    by (auto simp: add_independent_sunshades_effect_def)
  with w rr ins armor show ?thesis
    by (simp add: expand_effect_mods_def t)
qed

lemma example_alloc_above_references:
  "get_free_addr example_ext sm n h = Inr (a, sm') \<and> is_reference_byte x \<longrightarrow> x < a \<or> a + n \<le> x"
  by (auto simp: example_ext_def is_reference_byte_def addr_offset_dict_def)

lemma example_hooks_off_references:
  "h \<in> set (map fst hook_pc_pairs @ [sunshades_hook_rom_addr]) \<and> is_reference_byte x
     \<longrightarrow> x < to_file_ptr example_ext h \<or> to_file_ptr example_ext h + 4 \<le> x"
  by (auto simp: example_ext_def is_reference_byte_def addr_offset_dict_def hook_pc_pairs_def
      sunshades_hook_rom_addr_def)

theorem references_rewritten_witness:
  "\<exists>rom'. expand_effect_mods example_ext example_rom = Inr rom'
     \<and> read_at rom' 0x01EB2E 3 = [0x01, 0x00, 0x41]
     \<and> read_at rom' 0x01EB36 3 = [0x02, 0x00, 0x41]
     \<and> read_at rom' 0x01EB3E 3 = [0x00, 0x00, 0x41]
     \<and> read_at rom' 0x3DB5B2 3 = [0x01, 0x00, 0x41]
     \<and> read_at rom' 0x3DB5D1 3 = [0x01, 0x00, 0x41]
     \<and> read_at rom' 0x3DB5F0 3 = [0x01, 0x00, 0x41]
     \<and> read_at rom' 0x3DB610 3 = [0x01, 0x00, 0x41]
     \<and> read_at rom' 0x3DB62F 3 = [0x01, 0x00, 0x41]
     \<and> read_at rom' 0x3DB64E 3 = [0x01, 0x00, 0x41]"
proof -
  from example_expand_effect_mods obtain rom' where
    run: "expand_effect_mods example_ext example_rom = Inr rom'"
    by blast
  have alloc: "\<forall>sm n h a sm' x. get_free_addr example_ext sm n h = Inr (a, sm') \<and> is_reference_byte x
                  \<longrightarrow> x < a \<or> a + n \<le> x"
    using example_alloc_above_references by blast
  have hooks: "\<forall>h x. h \<in> set (map fst hook_pc_pairs @ [sunshades_hook_rom_addr])
                    \<and> is_reference_byte x
                  \<longrightarrow> x < to_file_ptr example_ext h \<or> to_file_ptr example_ext h + 4 \<le> x"
    using example_hooks_off_references by blast
  from references_rewritten [OF run alloc hooks] obtain new_eff_start sm where
    a: "get_free_addr example_ext (space_manager example_rom) ((0x39 + 6) * 3) (Some 0x410000)
          = Inr (new_eff_start, sm)"
    and sites: "\<forall>(addr, offset) \<in> set addr_offset_dict.
          read_at rom' addr 3 = le_bytes (to_rom_ptr example_ext new_eff_start + offset) 3"
    by fastforce
  from a have "new_eff_start = 0x410000"
    by (simp add: example_ext_def example_rom_def)
  then have t: "to_rom_ptr example_ext new_eff_start = 0x410000"
    by (simp add: example_ext_def)
  from sites show ?thesis
    using run by (simp add: addr_offset_dict_def t numeral_3_eq_3)
qed

end
